theory Spec2Isabelle
  imports Main "HOL-Library.Word"
begin

section \<open>The file-descriptor lower layer (lib/gensio_ll_fd.c)\<close>

subsection \<open>Data model\<close>

text \<open>\<^verbatim>\<open>enum fd_state\<close>.\<close>

datatype fd_state = FD_CLOSED | FD_IN_OPEN | FD_OPEN | FD_IN_CLOSE

text \<open>
  Modelled from the spec: the error kinds of the error table (gensio_err.h is not among
  the sources). The code only compares an error with zero (\<open>GE_NOERR\<close>) or with one of
  the named kinds; \<open>GE_OTHER\<close> stands for any transport error.
\<close>

datatype gensio_err =
    GE_NOERR | GE_NOMEM | GE_NOTSUP | GE_INVAL | GE_NOTREADY | GE_INUSE
  | GE_INPROGRESS | GE_REMCLOSE | GE_TIMEDOUT | GE_CANCELLED | GE_OTHER nat

type_synonym cbref = nat      \<comment> \<open>a function pointer, by identity\<close>
type_synonym dataref = nat    \<comment> \<open>a \<^verbatim>\<open>void *\<close> handed back to a callback\<close>
type_synonym byte = "8 word"
type_synonym auxv = "string list"

text \<open>Which optional hooks of \<^verbatim>\<open>struct gensio_fd_ll_ops\<close> are non-NULL.\<close>

record fd_ops =
  has_sub_open :: bool
  has_check_close :: bool
  has_retry_open :: bool
  has_read_ready :: bool
  has_write_ready :: bool
  has_except_ready :: bool

datatype close_state = GENSIO_LL_CLOSE_STATE_START | GENSIO_LL_CLOSE_STATE_DONE

text \<open>
  Everything the lower layer does to the outside, in program order: lock operations,
  reference counting, calls to the OS functions, calls to the driver hooks and the
  up-calls (the upward callback \<^verbatim>\<open>cb\<close>, \<^verbatim>\<open>open_done\<close>, \<^verbatim>\<open>close_done\<close>).
  \<open>CbRead d err bytes aux n\<close> is the call \<^verbatim>\<open>cb(d, GENSIO_LL_CB_READ, err, bytes, len, aux)\<close>
  that returned \<open>n\<close>; \<open>DoRead fd size err bytes\<close> is the call of \<^verbatim>\<open>doread\<close> for at most
  \<open>size\<close> bytes that returned \<open>err\<close> and stored \<open>bytes\<close>.
\<close>

datatype ll_event =
    EvLock | EvUnlock | EvRef | EvDeref | EvFree
  | CbRead dataref gensio_err "byte list" "auxv option" nat
  | CbWriteReady dataref
  | CbOpenDone cbref dataref gensio_err dataref
  | CbCloseDone cbref dataref dataref
  | OsSetReadHandler int bool
  | OsSetWriteHandler int bool
  | OsSetExceptHandler int bool
  | OsSetFdHandlers int
  | OsClearFdHandlers int
  | OsClearFdHandlersNorpt int
  | OsClose int
  | OsRun
  | OsStartTimer nat
  | DoRead int nat gensio_err "byte list"
  | OpSubOpen
  | OpCheckOpen int
  | OpRetryOpen
  | OpCheckClose close_state
  | OpReadReady int
  | OpWriteReady int
  | OpExceptReady int

text \<open>
  \<^verbatim>\<open>struct fd_ll\<close>. \<open>refcount\<close> is an \<^verbatim>\<open>unsigned int\<close>; the \<^verbatim>\<open>gensiods\<close> fields are
  unsigned sizes, kept as naturals (the code subtracts only a smaller count from a
  length). \<open>read_data\<close> is the contents of the read buffer. The fields from \<open>locked\<close> on
  are not in the struct: whether the lock is held, whether the struct has been freed,
  what the OS layer has been told (handler enables, a pending cleared report, a
  queued runner, a started close timer), and the log of events.
\<close>

record fd_ll =
  refcount :: "32 word"
  cb_data :: dataref
  fd :: int
  state :: fd_state
  read_enabled :: bool
  write_enabled :: bool
  write_only :: bool
  ops :: fd_ops
  open_done :: "cbref option"
  open_data :: dataref
  open_err :: gensio_err
  close_done :: "cbref option"
  close_data :: dataref
  read_data :: "byte list"
  read_data_size :: nat
  read_data_len :: nat
  read_data_pos :: nat
  auxdata :: "auxv option"
  in_read :: bool
  deferred_op_pending :: bool
  deferred_read :: bool
  deferred_close :: bool
  locked :: bool
  freed :: bool
  os_read_on :: bool
  os_write_on :: bool
  os_except_on :: bool
  os_cleared_due :: bool
  os_runner_due :: bool
  os_timer_due :: bool
  trace :: "ll_event list"

subsection \<open>Locking, reference counting and the OS functions\<close>

definition log :: "ll_event \<Rightarrow> fd_ll \<Rightarrow> fd_ll" where
  "log e s = s\<lparr>trace := trace s @ [e]\<rparr>"

definition fd_lock :: "fd_ll \<Rightarrow> fd_ll" where
  "fd_lock s = log EvLock (s\<lparr>locked := True\<rparr>)"

definition fd_unlock :: "fd_ll \<Rightarrow> fd_ll" where
  "fd_unlock s = log EvUnlock (s\<lparr>locked := False\<rparr>)"

definition fd_ref :: "fd_ll \<Rightarrow> fd_ll" where
  "fd_ref s = log EvRef (s\<lparr>refcount := refcount s + 1\<rparr>)"

definition fd_lock_and_ref :: "fd_ll \<Rightarrow> fd_ll" where
  "fd_lock_and_ref s = fd_ref (fd_lock s)"

text \<open>
  Modelled from the spec: the OS-Funcs FD watcher, deferred runner and timer (their
  implementation is not among the sources). Each call is logged; the enable bits,
  the owed cleared report, the queued runner and the started timer are remembered so
  that the event loop below delivers only what was asked for. Clearing the handlers
  without a report asks for no report; a report owed from an earlier clearing stays
  owed.
\<close>

definition os_set_read_handler :: "bool \<Rightarrow> fd_ll \<Rightarrow> fd_ll" where
  "os_set_read_handler b s = log (OsSetReadHandler (fd s) b) (s\<lparr>os_read_on := b\<rparr>)"

definition os_set_write_handler :: "bool \<Rightarrow> fd_ll \<Rightarrow> fd_ll" where
  "os_set_write_handler b s = log (OsSetWriteHandler (fd s) b) (s\<lparr>os_write_on := b\<rparr>)"

definition os_set_except_handler :: "bool \<Rightarrow> fd_ll \<Rightarrow> fd_ll" where
  "os_set_except_handler b s = log (OsSetExceptHandler (fd s) b) (s\<lparr>os_except_on := b\<rparr>)"

definition os_clear_fd_handlers :: "fd_ll \<Rightarrow> fd_ll" where
  "os_clear_fd_handlers s =
     log (OsClearFdHandlers (fd s))
       (s\<lparr>os_read_on := False, os_write_on := False, os_except_on := False,
          os_cleared_due := True\<rparr>)"

definition os_clear_fd_handlers_norpt :: "fd_ll \<Rightarrow> fd_ll" where
  "os_clear_fd_handlers_norpt s =
     log (OsClearFdHandlersNorpt (fd s))
       (s\<lparr>os_read_on := False, os_write_on := False, os_except_on := False\<rparr>)"

definition os_close :: "fd_ll \<Rightarrow> fd_ll" where
  "os_close s = log (OsClose (fd s)) s"

definition os_run :: "fd_ll \<Rightarrow> fd_ll" where
  "os_run s = log OsRun (s\<lparr>os_runner_due := True\<rparr>)"

definition os_start_timer :: "nat \<Rightarrow> fd_ll \<Rightarrow> fd_ll" where
  "os_start_timer t s = log (OsStartTimer t) (s\<lparr>os_timer_due := True\<rparr>)"

text \<open>
  \<^verbatim>\<open>fd_finish_free\<close>: everything the struct owns is released and then the struct
  itself. Nothing of it may be touched afterwards.
\<close>

definition fd_finish_free :: "fd_ll \<Rightarrow> fd_ll" where
  "fd_finish_free s = log EvFree (s\<lparr>freed := True\<rparr>)"

text \<open>
  A run of the model ends early in three ways: the \<^verbatim>\<open>assert\<close> of
  \<^verbatim>\<open>fd_deref_and_unlock\<close> fails, the code touches the struct after it was freed, or
  a retry loop outlasts the answers supplied for the callbacks.
\<close>

datatype fault = AssertFailed | UseAfterFree | Diverged

definition fd_deref_and_unlock :: "fd_ll \<Rightarrow> fault + fd_ll" where
  "fd_deref_and_unlock s =
     (if refcount s = 0 then Inl AssertFailed
      else
        let s1 = log EvDeref (s\<lparr>refcount := refcount s - 1\<rparr>);
            count = refcount s1;
            s2 = fd_unlock s1
        in if count = 0 then Inr (fd_finish_free s2) else Inr s2)"

subsection \<open>The calls of the lower-layer interface that never call back\<close>

text \<open>\<^verbatim>\<open>fd_start_close\<close>.\<close>

definition fd_start_close :: "fd_ll \<Rightarrow> fd_ll" where
  "fd_start_close s =
     (let s1 = (if has_check_close (ops s)
                then log (OpCheckClose GENSIO_LL_CLOSE_STATE_START) s else s);
          s2 = s1\<lparr>state := FD_IN_CLOSE\<rparr>
      in os_clear_fd_handlers s2)"

text \<open>\<^verbatim>\<open>fd_close\<close>: the return value and the new state.\<close>

definition fd_close :: "cbref option \<Rightarrow> dataref \<Rightarrow> fd_ll \<Rightarrow> gensio_err \<times> fd_ll" where
  "fd_close done cdata s =
     (let s1 = fd_lock s in
      if state s1 = FD_OPEN \<or> state s1 = FD_IN_OPEN then
        (GE_NOERR, fd_unlock (fd_start_close (s1\<lparr>close_done := done, close_data := cdata\<rparr>)))
      else (GE_NOTREADY, fd_unlock s1))"

text \<open>\<^verbatim>\<open>fd_sched_deferred_op\<close>.\<close>

definition fd_sched_deferred_op :: "fd_ll \<Rightarrow> fd_ll" where
  "fd_sched_deferred_op s =
     (if \<not> deferred_op_pending s
      then os_run ((fd_ref s)\<lparr>deferred_op_pending := True\<rparr>)
      else s)"

text \<open>\<^verbatim>\<open>fd_set_read_callback_enable\<close>.\<close>

definition fd_set_read_callback_enable :: "bool \<Rightarrow> fd_ll \<Rightarrow> fd_ll" where
  "fd_set_read_callback_enable enabled s =
     (let s1 = fd_lock s in
      if write_only s1 then fd_unlock s1
      else
        let s2 = s1\<lparr>read_enabled := enabled\<rparr> in
        if in_read s2 \<or> state s2 \<noteq> FD_OPEN \<or> (read_data_len s2 \<noteq> 0 \<and> \<not> enabled)
        then fd_unlock s2
        else if read_data_len s2 \<noteq> 0
        then fd_unlock (fd_sched_deferred_op (s2\<lparr>in_read := True, deferred_read := True\<rparr>))
        else fd_unlock (os_set_except_handler enabled (os_set_read_handler enabled s2)))"

text \<open>\<^verbatim>\<open>fd_set_write_callback_enable\<close>.\<close>

definition fd_set_write_callback_enable :: "bool \<Rightarrow> fd_ll \<Rightarrow> fd_ll" where
  "fd_set_write_callback_enable enabled s =
     (let s1 = (fd_lock s)\<lparr>write_enabled := enabled\<rparr> in
      if state s1 = FD_OPEN \<or> state s1 = FD_IN_OPEN
      then fd_unlock (os_set_write_handler enabled s1)
      else fd_unlock s1)"

text \<open>\<^verbatim>\<open>fd_disable\<close>: no lock is taken.\<close>

definition fd_disable :: "fd_ll \<Rightarrow> fd_ll" where
  "fd_disable s =
     (let s1 = s\<lparr>state := FD_CLOSED\<rparr>;
          s2 = os_clear_fd_handlers_norpt s1;
          s3 = os_close s2
      in s3\<lparr>fd := -1\<rparr>)"

text \<open>\<^verbatim>\<open>fd_free\<close>.\<close>

definition fd_free :: "fd_ll \<Rightarrow> fault + fd_ll" where
  "fd_free s = fd_deref_and_unlock (fd_lock s)"

subsection \<open>Callbacks\<close>

text \<open>
  A callback runs user code, which may call back into the lower layer before it
  returns. The model is told what the callback does: the calls it makes, in order,
  and (for a read) the count it returns.
\<close>

datatype ll_call =
    CallSetRead bool
  | CallSetWrite bool
  | CallClose "cbref option" dataref
  | CallFree
  | CallDisable

type_synonym cb_resp = "nat \<times> ll_call list"

definition and_then :: "fault + 'a \<Rightarrow> ('a \<Rightarrow> fault + 'b) \<Rightarrow> fault + 'b" where
  "and_then m f = (case m of Inl e \<Rightarrow> Inl e | Inr x \<Rightarrow> f x)"

fun do_call :: "ll_call \<Rightarrow> fd_ll \<Rightarrow> fault + fd_ll" where
  "do_call (CallSetRead b) s = Inr (fd_set_read_callback_enable b s)"
| "do_call (CallSetWrite b) s = Inr (fd_set_write_callback_enable b s)"
| "do_call (CallClose done cdata) s = Inr (snd (fd_close done cdata s))"
| "do_call CallFree s = fd_free s"
| "do_call CallDisable s = Inr (fd_disable s)"

fun do_calls :: "ll_call list \<Rightarrow> fd_ll \<Rightarrow> fault + fd_ll" where
  "do_calls [] s = Inr s"
| "do_calls (c # cs) s =
     (if freed s then Inl UseAfterFree else and_then (do_call c s) (do_calls cs))"

text \<open>
  One up-call: the event is logged, the callback's own calls run, and the caller goes
  on with the struct, which must still be there.
\<close>

definition upcall :: "ll_event \<Rightarrow> ll_call list \<Rightarrow> fd_ll \<Rightarrow> fault + fd_ll" where
  "upcall e calls s =
     and_then (do_calls calls (log e s))
       (\<lambda>s1. if freed s1 then Inl UseAfterFree else Inr s1)"


subsection \<open>Read delivery\<close>

text \<open>The bytes a read up-call is handed: \<^verbatim>\<open>read_data + read_data_pos\<close>, \<^verbatim>\<open>read_data_len\<close>.\<close>

definition offered :: "fd_ll \<Rightarrow> byte list" where
  "offered s = take (read_data_len s) (drop (read_data_pos s) (read_data s))"

text \<open>
  \<^verbatim>\<open>fd_deliver_read_data\<close>, from the label \<^verbatim>\<open>retry\<close>: one answer of the consumer is
  used per call of \<^verbatim>\<open>cb\<close>.
\<close>

fun deliver_retry :: "cb_resp list \<Rightarrow> gensio_err \<Rightarrow> fd_ll \<Rightarrow> fault + fd_ll" where
  "deliver_retry [] err s = Inl Diverged"
| "deliver_retry (r # rs) err s =
     (case upcall (CbRead (cb_data s) err (offered s) (auxdata s) (fst r)) (snd r) s of
        Inl e \<Rightarrow> Inl e
      | Inr s1 \<Rightarrow>
          if err \<noteq> GE_NOERR \<or> fst r \<ge> read_data_len s1
          then Inr (s1\<lparr>read_data_pos := 0, read_data_len := 0, auxdata := None\<rparr>)
          else
            let s2 = s1\<lparr>read_data_pos := read_data_pos s1 + fst r,
                        read_data_len := read_data_len s1 - fst r\<rparr>
            in if read_enabled s2 then deliver_retry rs err s2 else Inr s2)"

definition fd_deliver_read_data :: "cb_resp list \<Rightarrow> gensio_err \<Rightarrow> fd_ll \<Rightarrow> fault + fd_ll" where
  "fd_deliver_read_data rs err s =
     (if err \<noteq> GE_NOERR \<or> read_data_len s \<noteq> 0 then deliver_retry rs err s else Inr s)"

subsection \<open>Open and close completion\<close>

text \<open>
  The last block of \<^verbatim>\<open>fd_finish_open\<close>: in state OPEN the read, exception and write
  handlers are enabled as \<^verbatim>\<open>read_enabled\<close> and \<^verbatim>\<open>write_enabled\<close> say.
\<close>

definition fd_finish_open_enable :: "fd_ll \<Rightarrow> fd_ll" where
  "fd_finish_open_enable s3 =
     (if state s3 = FD_OPEN then
        (let s4 = (if read_enabled s3
                   then os_set_except_handler True (os_set_read_handler True s3)
                   else s3)
         in if write_enabled s4 then os_set_write_handler True s4 else s4)
      else s3)"

text \<open>\<^verbatim>\<open>fd_finish_open\<close> from the label \<^verbatim>\<open>call_done\<close>.\<close>

definition fd_finish_open_call_done :: "ll_call list \<Rightarrow> gensio_err \<Rightarrow> fd_ll \<Rightarrow> fault + fd_ll" where
  "fd_finish_open_call_done calls err s =
     and_then
       (case open_done s of
          Some od \<Rightarrow>
            (let s1 = fd_unlock (s\<lparr>open_done := None\<rparr>) in
             and_then (upcall (CbOpenDone od (cb_data s1) err (open_data s1)) calls s1)
               (\<lambda>s2. Inr (fd_lock s2)))
        | None \<Rightarrow> Inr s)
       (\<lambda>s3. Inr (fd_finish_open_enable s3))"

text \<open>\<^verbatim>\<open>fd_finish_open\<close>.\<close>

definition fd_finish_open :: "ll_call list \<Rightarrow> gensio_err \<Rightarrow> fd_ll \<Rightarrow> fault + fd_ll" where
  "fd_finish_open calls err s =
     (let s1 = (if fd s \<noteq> -1 then os_set_except_handler False s else s) in
      if err \<noteq> GE_NOERR then
        (if fd s1 = -1 then fd_finish_open_call_done calls err (s1\<lparr>state := FD_CLOSED\<rparr>)
         else Inr (fd_start_close (s1\<lparr>open_err := err\<rparr>)))
      else fd_finish_open_call_done calls err (s1\<lparr>state := FD_OPEN\<rparr>))"

text \<open>\<^verbatim>\<open>fd_finish_close\<close>.\<close>

definition fd_finish_close :: "ll_call list \<Rightarrow> fd_ll \<Rightarrow> fault + fd_ll" where
  "fd_finish_close calls s =
     (let s1 = s\<lparr>state := FD_CLOSED\<rparr> in
      case close_done s1 of
        Some cd \<Rightarrow>
          (let s2 = fd_unlock (s1\<lparr>close_done := None\<rparr>) in
           and_then (upcall (CbCloseDone cd (cb_data s2) (close_data s2)) calls s2)
             (\<lambda>s3. Inr (fd_lock s3)))
      | None \<Rightarrow> Inr s1)"

subsection \<open>The deferred runner\<close>

text \<open>
  The loop at the label \<^verbatim>\<open>retry\<close> of \<^verbatim>\<open>fd_deferred_op\<close>: each round delivers once, with
  its own list of consumer answers.
\<close>

fun deferred_retry :: "cb_resp list list \<Rightarrow> fd_ll \<Rightarrow> fault + fd_ll" where
  "deferred_retry [] s = (if deferred_read s then Inl Diverged else Inr s)"
| "deferred_retry (sc # rest) s =
     (if deferred_read s then
        (case fd_deliver_read_data sc GE_NOERR (fd_unlock (s\<lparr>deferred_read := False\<rparr>)) of
           Inl e \<Rightarrow> Inl e
         | Inr s1 \<Rightarrow> deferred_retry rest ((fd_lock s1)\<lparr>in_read := False\<rparr>))
      else Inr s)"

text \<open>\<^verbatim>\<open>fd_deferred_op\<close>.\<close>

definition fd_deferred_op :: "ll_call list \<Rightarrow> cb_resp list list \<Rightarrow> fd_ll \<Rightarrow> fault + fd_ll" where
  "fd_deferred_op close_calls scripts s =
     (let s0 = fd_lock s in
      and_then
        (if deferred_close s0
         then fd_finish_close close_calls (s0\<lparr>deferred_close := False\<rparr>)
         else Inr s0)
        (\<lambda>s1. and_then (deferred_retry scripts s1)
           (\<lambda>s2.
              let s3 = s2\<lparr>deferred_op_pending := False\<rparr>;
                  s4 = (if state s3 = FD_OPEN
                        then os_set_write_handler (write_enabled s3)
                               (os_set_except_handler (read_enabled s3)
                                 (os_set_read_handler (read_enabled s3) s3))
                        else s3)
              in fd_deref_and_unlock s4)))"

subsection \<open>Read-ready\<close>

text \<open>
  What a \<^verbatim>\<open>doread\<close> function did: its return value, the bytes it stored at the start
  of the buffer (their number is \<^verbatim>\<open>*rcount\<close>) and the aux tags it set.
\<close>

record read_result =
  rd_err :: gensio_err
  rd_bytes :: "byte list"
  rd_aux :: "auxv option"

text \<open>\<^verbatim>\<open>fd_handle_incoming\<close>.\<close>

definition fd_handle_incoming :: "read_result \<Rightarrow> cb_resp list \<Rightarrow> fd_ll \<Rightarrow> fault + fd_ll" where
  "fd_handle_incoming rd script s =
     (let s1 = os_set_except_handler False (os_set_read_handler False (fd_lock_and_ref s)) in
      if in_read s1 then fd_deref_and_unlock s1
      else
        let s2 = fd_unlock (s1\<lparr>in_read := True\<rparr>);
            s3 = (if read_data_len s2 = 0
                  then
                    (let s2a = log (DoRead (fd s2) (read_data_size s2) (rd_err rd) (rd_bytes rd)) s2 in
                     if rd_err rd = GE_NOERR
                     then s2a\<lparr>read_data := rd_bytes rd @ drop (length (rd_bytes rd)) (read_data s2a),
                              read_data_len := length (rd_bytes rd),
                              auxdata := rd_aux rd\<rparr>
                     else s2a)
                  else s2);
            err = (if read_data_len s2 = 0 then rd_err rd else GE_NOERR)
        in and_then (fd_deliver_read_data script err s3)
             (\<lambda>s4.
                let s5 = (fd_lock s4)\<lparr>in_read := False\<rparr>;
                    s6 = (if state s5 = FD_OPEN \<and> read_enabled s5
                          then os_set_except_handler True (os_set_read_handler True s5)
                          else s5)
                in fd_deref_and_unlock s6))"

text \<open>
  \<^verbatim>\<open>fd_read_ready\<close>. A driver's \<^verbatim>\<open>read_ready\<close> hook reads through
  \<^verbatim>\<open>gensio_fd_ll_handle_incoming\<close>; \<open>hook_reads\<close> says whether it did.
\<close>

definition fd_read_ready :: "bool \<Rightarrow> read_result \<Rightarrow> cb_resp list \<Rightarrow> fd_ll \<Rightarrow> fault + fd_ll" where
  "fd_read_ready hook_reads rd script s =
     (if has_read_ready (ops s) then
        (let s1 = log (OpReadReady (fd s)) s in
         if hook_reads then fd_handle_incoming rd script s1 else Inr s1)
      else fd_handle_incoming rd script s)"

subsection \<open>Write-ready, exception-ready and open\<close>

text \<open>\<^verbatim>\<open>fd_setup_handlers\<close>; \<open>ok\<close> says whether \<^verbatim>\<open>set_fd_handlers\<close> succeeded.\<close>

definition fd_setup_handlers :: "bool \<Rightarrow> fd_ll \<Rightarrow> gensio_err \<times> fd_ll" where
  "fd_setup_handlers ok s =
     (let s1 = log (OsSetFdHandlers (fd s)) s in
      if ok
      then (GE_NOERR, s1\<lparr>os_read_on := False, os_write_on := False, os_except_on := False,
                          os_cleared_due := False\<rparr>)
      else (GE_NOMEM, s1))"

text \<open>
  What the driver's hooks answered while an open completes: \<^verbatim>\<open>check_open\<close>,
  \<^verbatim>\<open>retry_open\<close> (its error and the handle it stored, if any) and \<^verbatim>\<open>set_fd_handlers\<close>.
\<close>

record open_answers =
  chk_err :: gensio_err
  retry_err :: gensio_err
  retry_fd :: "int option"
  setup_ok :: bool

text \<open>\<^verbatim>\<open>fd_handle_write_ready\<close>.\<close>

definition fd_handle_write_ready :: "open_answers \<Rightarrow> ll_call list \<Rightarrow> fd_ll \<Rightarrow> fault + fd_ll" where
  "fd_handle_write_ready oa calls s =
     (let s1 = os_set_write_handler False s in
      if state s1 = FD_IN_OPEN then
        (let s2 = log (OpCheckOpen (fd s1)) s1 in
         if chk_err oa \<noteq> GE_NOERR \<and> has_retry_open (ops s2) then
           (let s3 = (os_close (os_clear_fd_handlers_norpt s2))\<lparr>fd := -1\<rparr>;
                s4 = log OpRetryOpen s3;
                s5 = (case retry_fd oa of Some f \<Rightarrow> s4\<lparr>fd := f\<rparr> | None \<Rightarrow> s4)
            in if retry_err oa \<noteq> GE_INPROGRESS then fd_finish_open calls (retry_err oa) s5
               else
                 (case fd_setup_handlers (setup_ok oa) s5 of
                    (err, s6) \<Rightarrow>
                      if err \<noteq> GE_NOERR then fd_finish_open calls err s6
                      else Inr (os_set_except_handler True (os_set_write_handler True s6))))
         else fd_finish_open calls (chk_err oa) s2)
      else
        (let s2 = fd_unlock s1 in
         if has_write_ready (ops s2) then Inr (fd_lock (log (OpWriteReady (fd s2)) s2))
         else
           and_then (upcall (CbWriteReady (cb_data s2)) calls s2)
             (\<lambda>s3.
                Inr (let s4 = fd_lock s3 in
                     if state s4 = FD_OPEN \<and> write_enabled s4
                     then os_set_write_handler True s4 else s4))))"

text \<open>\<^verbatim>\<open>fd_write_ready\<close>.\<close>

definition fd_write_ready :: "open_answers \<Rightarrow> ll_call list \<Rightarrow> fd_ll \<Rightarrow> fault + fd_ll" where
  "fd_write_ready oa calls s =
     and_then (fd_handle_write_ready oa calls (fd_lock_and_ref s)) fd_deref_and_unlock"

text \<open>\<^verbatim>\<open>fd_except_ready\<close>.\<close>

definition fd_except_ready :: "open_answers \<Rightarrow> ll_call list \<Rightarrow> fd_ll \<Rightarrow> fault + fd_ll" where
  "fd_except_ready oa calls s =
     (let s1 = fd_lock s in
      if state s1 = FD_IN_OPEN
      then and_then (fd_handle_write_ready oa calls (fd_ref s1)) fd_deref_and_unlock
      else if has_except_ready (ops s1)
      then Inr (log (OpExceptReady (fd s1)) (fd_unlock s1))
      else Inr (fd_unlock s1))"

text \<open>
  \<^verbatim>\<open>fd_open\<close>; \<open>sub_err\<close> and \<open>sub_fd\<close> are what \<^verbatim>\<open>sub_open\<close> returned and the handle it
  stored, if any.
\<close>

definition fd_open ::
  "gensio_err \<Rightarrow> int option \<Rightarrow> bool \<Rightarrow> cbref option \<Rightarrow> dataref \<Rightarrow> fd_ll \<Rightarrow> gensio_err \<times> fd_ll" where
  "fd_open sub_err sub_fd ok done odata s =
     (if \<not> has_sub_open (ops s) then (GE_NOTSUP, s)
      else
        let s1 = log OpSubOpen (fd_lock s);
            s2 = (case sub_fd of Some f \<Rightarrow> s1\<lparr>fd := f\<rparr> | None \<Rightarrow> s1)
        in if sub_err = GE_INPROGRESS \<or> sub_err = GE_NOERR then
             (case fd_setup_handlers ok s2 of
                (err2, s3) \<Rightarrow>
                  if err2 \<noteq> GE_NOERR then (err2, fd_unlock ((os_close s3)\<lparr>fd := -1\<rparr>))
                  else if sub_err = GE_INPROGRESS then
                    (sub_err,
                     fd_unlock
                       (os_set_except_handler True
                         (os_set_write_handler True
                           (s3\<lparr>state := FD_IN_OPEN, open_done := done, open_data := odata\<rparr>))))
                  else (sub_err, fd_unlock (s3\<lparr>state := FD_OPEN\<rparr>)))
           else (sub_err, fd_unlock s2))"

subsection \<open>Handlers cleared and the close timer\<close>

text \<open>\<^verbatim>\<open>fd_finish_cleared\<close>.\<close>

definition fd_finish_cleared :: "ll_call list \<Rightarrow> ll_call list \<Rightarrow> fd_ll \<Rightarrow> fault + fd_ll" where
  "fd_finish_cleared open_calls close_calls s =
     (let s1 = (os_close (fd_lock_and_ref s))\<lparr>fd := -1\<rparr> in
      and_then
        (case open_done s1 of
           Some od \<Rightarrow>
             (let s2 = fd_unlock (s1\<lparr>open_done := None, state := FD_CLOSED\<rparr>) in
              and_then
                (upcall (CbOpenDone od (open_data s2) (open_err s2) (open_data s2)) open_calls s2)
                (\<lambda>s3. Inr (fd_lock s3)))
         | None \<Rightarrow> Inr s1)
        (\<lambda>s4.
           and_then
             (if deferred_op_pending s4 then Inr (s4\<lparr>deferred_close := True\<rparr>)
              else fd_finish_close close_calls s4)
             fd_deref_and_unlock))"

text \<open>
  \<^verbatim>\<open>fd_close_timeout\<close>; \<open>chk\<close> is what \<^verbatim>\<open>check_close\<close> answered for the state DONE and
  \<open>tmo\<close> the timeout it asked for.
\<close>

definition fd_close_timeout ::
  "gensio_err \<Rightarrow> nat \<Rightarrow> ll_call list \<Rightarrow> ll_call list \<Rightarrow> fd_ll \<Rightarrow> fault + fd_ll" where
  "fd_close_timeout chk tmo open_calls close_calls s =
     (let s1 = (if has_check_close (ops s)
                then log (OpCheckClose GENSIO_LL_CLOSE_STATE_DONE) s else s);
          err = (if has_check_close (ops s) then chk else GE_NOERR)
      in if err = GE_INPROGRESS then Inr (os_start_timer tmo s1)
         else fd_finish_cleared open_calls close_calls s1)"

text \<open>\<^verbatim>\<open>fd_cleared\<close>.\<close>

definition fd_cleared ::
  "gensio_err \<Rightarrow> nat \<Rightarrow> ll_call list \<Rightarrow> ll_call list \<Rightarrow> fd_ll \<Rightarrow> fault + fd_ll" where
  "fd_cleared chk tmo open_calls close_calls s =
     (if has_check_close (ops s) then fd_close_timeout chk tmo open_calls close_calls s
      else fd_finish_cleared open_calls close_calls s)"

subsection \<open>Allocation\<close>

text \<open>
  \<^verbatim>\<open>fd_gensio_ll_alloc\<close> when every allocation succeeds: the struct is zeroed, then
  filled in; handlers are set up when a handle is given. \<open>None\<close> is the NULL the
  function returns when \<^verbatim>\<open>set_fd_handlers\<close> fails.
\<close>

definition fd_gensio_ll_alloc :: "int \<Rightarrow> fd_ops \<Rightarrow> nat \<Rightarrow> bool \<Rightarrow> bool \<Rightarrow> fd_ll option" where
  "fd_gensio_ll_alloc fd0 ops0 max_read_size wo ok =
     (let s = \<lparr>refcount = 1, cb_data = 0, fd = fd0,
               state = (if fd0 = -1 then FD_CLOSED else FD_OPEN),
               read_enabled = False, write_enabled = False, write_only = wo,
               ops = ops0, open_done = None, open_data = 0, open_err = GE_NOERR,
               close_done = None, close_data = 0,
               read_data = replicate max_read_size 0, read_data_size = max_read_size,
               read_data_len = 0, read_data_pos = 0, auxdata = None, in_read = False,
               deferred_op_pending = False, deferred_read = False, deferred_close = False,
               locked = False, freed = False, os_read_on = False, os_write_on = False,
               os_except_on = False, os_cleared_due = False, os_runner_due = False,
               os_timer_due = False, trace = []\<rparr>
      in if fd0 \<noteq> -1
         then (case fd_setup_handlers ok s of
                 (err, s1) \<Rightarrow> if err \<noteq> GE_NOERR then None else Some s1)
         else Some s)"

subsection \<open>The event loop\<close>

text \<open>
  What can happen to a lower layer: a call of its interface, or a callback from the OS
  layer. Modelled from the spec (OS-Funcs): a ready handler runs only while it is
  enabled, the cleared handler only when a cleared report is owed, the timer only
  when started, the runner only when queued; each of the last three runs once per
  request. Nothing is done with a freed lower layer.
\<close>

datatype input =
    InSetRead bool
  | InSetWrite bool
  | InClose "cbref option" dataref
  | InFree
  | InDisable
  | InOpen gensio_err "int option" bool "cbref option" dataref
  | InReadReady bool read_result "cb_resp list"
  | InWriteReady open_answers "ll_call list"
  | InExceptReady open_answers "ll_call list"
  | InCleared gensio_err nat "ll_call list" "ll_call list"
  | InTimer gensio_err nat "ll_call list" "ll_call list"
  | InRunner "ll_call list" "cb_resp list list"

fun deliver :: "input \<Rightarrow> fd_ll \<Rightarrow> fault + fd_ll" where
  "deliver (InSetRead b) s = Inr (fd_set_read_callback_enable b s)"
| "deliver (InSetWrite b) s = Inr (fd_set_write_callback_enable b s)"
| "deliver (InClose done cdata) s = Inr (snd (fd_close done cdata s))"
| "deliver InFree s = fd_free s"
| "deliver InDisable s = Inr (fd_disable s)"
| "deliver (InOpen e f ok done odata) s = Inr (snd (fd_open e f ok done odata s))"
| "deliver (InReadReady h rd script) s =
     (if os_read_on s then fd_read_ready h rd script s else Inr s)"
| "deliver (InWriteReady oa calls) s =
     (if os_write_on s then fd_write_ready oa calls s else Inr s)"
| "deliver (InExceptReady oa calls) s =
     (if os_except_on s then fd_except_ready oa calls s else Inr s)"
| "deliver (InCleared chk tmo oc cc) s =
     (if os_cleared_due s then fd_cleared chk tmo oc cc (s\<lparr>os_cleared_due := False\<rparr>)
      else Inr s)"
| "deliver (InTimer chk tmo oc cc) s =
     (if os_timer_due s then fd_close_timeout chk tmo oc cc (s\<lparr>os_timer_due := False\<rparr>)
      else Inr s)"
| "deliver (InRunner cc scripts) s =
     (if os_runner_due s then fd_deferred_op cc scripts (s\<lparr>os_runner_due := False\<rparr>)
      else Inr s)"

definition step :: "input \<Rightarrow> fd_ll \<Rightarrow> fault + fd_ll" where
  "step i s = (if freed s then Inl UseAfterFree else deliver i s)"

fun run :: "input list \<Rightarrow> fd_ll \<Rightarrow> fault + fd_ll" where
  "run [] s = Inr s"
| "run (i # is) s = and_then (step i s) (run is)"

subsection \<open>Reading the event log\<close>

text \<open>The up-calls among the events: the upward callback and the two completions.\<close>

fun is_upcall :: "ll_event \<Rightarrow> bool" where
  "is_upcall (CbRead d e b a n) = True"
| "is_upcall (CbWriteReady d) = True"
| "is_upcall (CbOpenDone f d e x) = True"
| "is_upcall (CbCloseDone f d x) = True"
| "is_upcall _ = False"

definition upcalls :: "ll_event list \<Rightarrow> ll_event list" where
  "upcalls t = filter is_upcall t"

text \<open>The read buffer and what a read up-call is given besides.\<close>

definition rdbuf :: "fd_ll \<Rightarrow> byte list \<times> nat \<times> nat \<times> auxv option \<times> dataref" where
  "rdbuf s = (read_data s, read_data_pos s, read_data_len s, auxdata s, cb_data s)"

subsection \<open>Example lower layers\<close>

text \<open>A driver with \<^verbatim>\<open>sub_open\<close> and no optional hook.\<close>

definition plain_ops :: fd_ops where
  "plain_ops = \<lparr>has_sub_open = True, has_check_close = False, has_retry_open = False,
     has_read_ready = False, has_write_ready = False, has_except_ready = False\<rparr>"

text \<open>The lower layer allocated on handle 5 with a four-byte read buffer.\<close>

definition ll_open :: fd_ll where
  "ll_open =
     \<lparr>refcount = 1, cb_data = 0, fd = 5, state = FD_OPEN,
       read_enabled = False, write_enabled = False, write_only = False,
       ops = plain_ops, open_done = None, open_data = 0, open_err = GE_NOERR,
       close_done = None, close_data = 0,
       read_data = [0, 0, 0, 0], read_data_size = 4,
       read_data_len = 0, read_data_pos = 0, auxdata = None, in_read = False,
       deferred_op_pending = False, deferred_read = False, deferred_close = False,
       locked = False, freed = False, os_read_on = False, os_write_on = False,
       os_except_on = False, os_cleared_due = False, os_runner_due = False,
       os_timer_due = False, trace = [OsSetFdHandlers 5]\<rparr>"

text \<open>The same with read enabled and three bytes waiting in the buffer.\<close>

definition ll_buffered :: fd_ll where
  "ll_buffered = ll_open\<lparr>read_enabled := True, read_data := [1, 2, 3, 0], read_data_len := 3\<rparr>"

section \<open>The out-of-band send queue of ioinfo\<close>

text \<open>
  \<^verbatim>\<open>struct ioinfo_oob\<close>, as the code uses it (ioinfo.h is not among the sources):
  \<open>oob_buf\<close> holds the bytes from the pointer \<^verbatim>\<open>buf\<close> on, \<open>oob_next\<close> the address of the
  next record.
\<close>

record ioinfo_oob =
  oob_buf :: "byte list"
  oob_len :: nat
  oob_send_done :: "cbref option"
  oob_cb_data :: dataref
  oob_next :: "nat option"

text \<open>
  What the code of ioinfo does to the outside. A gensio is named by its handle, an
  endpoint (a \<^verbatim>\<open>struct ioinfo\<close>) by its address: \<^verbatim>\<open>gensio_write\<close> on a gensio with the
  bytes and aux tags given, \<^verbatim>\<open>gensio_control\<close> sending a break, a \<^verbatim>\<open>send_done\<close> call,
  \<^verbatim>\<open>ioinfo_err\<close> and \<^verbatim>\<open>ioinfo_out\<close> on an endpoint, the user handlers \<^verbatim>\<open>shutdown\<close> and
  \<^verbatim>\<open>oobdata\<close>, the sub-handlers \<^verbatim>\<open>handle_escape\<close> and \<^verbatim>\<open>handle_multichar_escape\<close>, and the
  read and write enables set on a gensio.
\<close>

datatype io_effect =
    GensioWrite nat "byte list" "auxv option"
  | GensioControlBreak nat
  | SendDone cbref dataref
  | IoinfoErr nat gensio_err
  | IoinfoOut nat "byte list"
  | UhShutdown nat bool
  | UhOobData nat "byte list"
  | ShHandleEscape nat byte
  | ShHandleMulticharEscape nat "byte list"
  | SetReadEnable nat bool
  | SetWriteEnable nat bool

text \<open>
  \<^verbatim>\<open>struct ioinfo\<close>: \<open>io\<close> is the handle of the endpoint's gensio, \<open>otherio\<close> the address
  of the other endpoint; \<open>sh\<close> says whether there are sub-handlers and \<open>uh_oobdata\<close>
  whether the user handlers have \<^verbatim>\<open>oobdata\<close>.
\<close>

record ioinfo =
  io :: nat
  otherio :: nat
  ready :: bool
  escape_char :: int
  in_escape :: bool
  escape_data :: "byte list"
  escape_pos :: nat
  sh :: bool
  uh_oobdata :: bool
  oob_head :: "nat option"
  oob_tail :: "nat option"

text \<open>
  The endpoints and the queued records in memory, by address, and what has been done
  to the outside so far.
\<close>

record ioworld =
  infos :: "nat \<Rightarrow> ioinfo"
  oob_mem :: "nat \<Rightarrow> ioinfo_oob"
  effects :: "io_effect list"

definition emit :: "io_effect \<Rightarrow> ioworld \<Rightarrow> ioworld" where
  "emit e w = w\<lparr>effects := effects w @ [e]\<rparr>"

text \<open>An assignment to fields of the endpoint at address \<open>a\<close>.\<close>

definition upd :: "nat \<Rightarrow> (ioinfo \<Rightarrow> ioinfo) \<Rightarrow> ioworld \<Rightarrow> ioworld" where
  "upd a f w = w\<lparr>infos := (infos w)(a := f (infos w a))\<rparr>"

definition oobaux :: auxv where
  "oobaux = [''oob'']"

text \<open>\<^verbatim>\<open>ioinfo_sendoob\<close> on the endpoint at \<open>a\<close>, for the record at address \<open>p\<close>.\<close>

definition ioinfo_sendoob :: "nat \<Rightarrow> nat \<Rightarrow> ioworld \<Rightarrow> ioworld" where
  "ioinfo_sendoob a p w =
     (let w1 = w\<lparr>oob_mem := (oob_mem w)(p := (oob_mem w p)\<lparr>oob_next := None\<rparr>)\<rparr>;
          w2 = (case oob_tail (infos w1 a) of
                  Some t \<Rightarrow> w1\<lparr>oob_mem := (oob_mem w1)(t := (oob_mem w1 t)\<lparr>oob_next := Some p\<rparr>)\<rparr>
                | None \<Rightarrow> upd a (\<lambda>i. i\<lparr>oob_head := Some p\<rparr>) w1);
          w3 = upd a (\<lambda>i. i\<lparr>oob_tail := Some p\<rparr>) w2
      in emit (SetWriteEnable (io (infos w3 a)) True) w3)"

text \<open>\<^verbatim>\<open>tolower\<close> on a character, in the C locale.\<close>

definition tolower :: "byte \<Rightarrow> byte" where
  "tolower c = (if 65 \<le> c \<and> c \<le> 90 then c + 32 else c)"

text \<open>
  \<^verbatim>\<open>handle_escapechar\<close> on the endpoint at \<open>a\<close>; \<open>he\<close> is what the sub-handler's
  \<^verbatim>\<open>handle_escape\<close> answers when it is asked. The handlers called are taken not to touch
  the endpoints.
\<close>

definition handle_escapechar :: "nat \<Rightarrow> byte \<Rightarrow> bool \<Rightarrow> ioworld \<Rightarrow> bool \<times> ioworld" where
  "handle_escapechar a c he w =
     (let i = infos w a in
      if escape_pos i > 0 then
        (if c = 13 \<or> c = 10 then
           (let w1 = upd a (\<lambda>i. i\<lparr>escape_data := (escape_data i)[escape_pos i := 0],
                                   escape_pos := escape_pos i + 1\<rparr>) w;
                w2 = (if escape_pos (infos w1 a) > 1 \<and> sh (infos w1 a)
                      then emit (ShHandleMulticharEscape a (escape_data (infos w1 a))) w1
                      else w1);
                w3 = emit (IoinfoOut a [62]) w2
            in (False, upd a (\<lambda>i. i\<lparr>escape_pos := 0\<rparr>) w3))
         else if c = 8 \<or> c = 127 then
           (if escape_pos i > 1
            then (True, emit (IoinfoOut a [8, 32, 8])
                          (upd a (\<lambda>i. i\<lparr>escape_pos := escape_pos i - 1\<rparr>) w))
            else (True, w))
         else
           (let w1 = emit (IoinfoOut a [c]) w in
            if escape_pos i < 10
            then (True, upd a (\<lambda>i. i\<lparr>escape_data := (escape_data i)[escape_pos i := c],
                                      escape_pos := escape_pos i + 1\<rparr>) w1)
            else (True, w1)))
      else
        (let c' = tolower c in
         if c' = 113 then (False, emit (UhShutdown a True) w)
         else if \<not> ready (infos w (otherio i)) then (False, w)
         else if c' = 98 then (False, emit (GensioControlBreak (io (infos w (otherio i)))) w)
         else if sh i then
           (let w1 = emit (ShHandleEscape a c') w in
            if he
            then (True, upd a (\<lambda>i. i\<lparr>escape_data := (escape_data i)[0 := c'], escape_pos := 1\<rparr>)
                          (emit (IoinfoOut a [60]) w1))
            else (False, w1))
         else (False, w)))"

text \<open>
  Modelled from the spec: \<^verbatim>\<open>gensio_str_in_auxdata\<close> (a library function that is not among
  the sources), whether the aux data holds the string.
\<close>

definition gensio_str_in_auxdata :: "auxv option \<Rightarrow> string \<Rightarrow> bool" where
  "gensio_str_in_auxdata aux str = (case aux of None \<Rightarrow> False | Some xs \<Rightarrow> str \<in> set xs)"

text \<open>
  What the outside answers during a read event: \<open>oob_taken\<close> is the length the user's
  \<^verbatim>\<open>oobdata\<close> handler leaves in \<^verbatim>\<open>*buflen\<close>, \<open>esc_rv\<close> the answer of the sub-handler's
  \<^verbatim>\<open>handle_escape\<close>, \<open>wr_rv\<close> and \<open>wr_count\<close> what \<^verbatim>\<open>gensio_write\<close> returns.
\<close>

record rd_answers =
  oob_taken :: nat
  esc_rv :: bool
  wr_rv :: gensio_err
  wr_count :: nat

text \<open>The loop of the read case looking for the escape character: the first index of it.\<close>

fun find_escape :: "int \<Rightarrow> byte list \<Rightarrow> nat option" where
  "find_escape ec [] = None"
| "find_escape ec (b # bs) =
     (if uint b = ec then Some 0 else map_option Suc (find_escape ec bs))"

text \<open>
  The end of the read case of \<^verbatim>\<open>io_event\<close>, from the write to the other endpoint's
  gensio on: \<open>n\<close> is \<^verbatim>\<open>*buflen\<close> and \<open>escapepos\<close> the position of an escape character found.
  The result is the new \<^verbatim>\<open>*buflen\<close>.
\<close>

definition io_event_read_forward ::
    "nat \<Rightarrow> byte list \<Rightarrow> nat option \<Rightarrow> nat \<Rightarrow> rd_answers \<Rightarrow> ioworld \<Rightarrow> nat \<times> ioworld" where
  "io_event_read_forward a buf escapepos n ans w =
     (let r = otherio (infos w a);
          w1 = (if ready (infos w r) then emit (GensioWrite (io (infos w r)) (take n buf) None) w
                else w)
      in if ready (infos w r) \<and> wr_rv ans \<noteq> GE_NOERR
         then (n, emit (UhShutdown a False) (emit (IoinfoErr r (wr_rv ans)) w1))
         else
           (let count = (if ready (infos w r) then wr_count ans else 0) in
            if count < n then
              (let w2 = emit (SetReadEnable (io (infos w1 a)) False) w1
               in (count, if ready (infos w2 r) then emit (SetWriteEnable (io (infos w2 r)) True) w2
                          else w2))
            else if escapepos \<noteq> None
            then (n + 1, upd a (\<lambda>i. i\<lparr>in_escape := True, escape_pos := 0\<rparr>) w1)
            else (n, w1)))"

text \<open>
  \<^verbatim>\<open>io_event\<close> for the event \<^verbatim>\<open>GENSIO_EVENT_READ\<close> on the endpoint at \<open>a\<close>, with the buffer
  \<open>buf\<close> (\<^verbatim>\<open>*buflen\<close> is its length) and the aux data: the error check at its entry and the
  read case. The result is \<^verbatim>\<open>*buflen\<close> at the return.
\<close>

definition io_event_read ::
    "nat \<Rightarrow> gensio_err \<Rightarrow> byte list \<Rightarrow> auxv option \<Rightarrow> rd_answers \<Rightarrow> ioworld \<Rightarrow> nat \<times> ioworld" where
  "io_event_read a err buf aux ans w =
     (let i = infos w a in
      if err \<noteq> GE_NOERR then
        (length buf,
         emit (UhShutdown a False) (if err \<noteq> GE_REMCLOSE then emit (IoinfoErr a err) w else w))
      else if length buf = 0 then (0, w)
      else if gensio_str_in_auxdata aux ''oob'' then
        (if uh_oobdata i then (oob_taken ans, emit (UhOobData a buf) w) else (length buf, w))
      else if escape_char i \<ge> 0 then
        (if in_escape i then
           (if escape_pos i = 0 \<and> uint (hd buf) = escape_char i
            then io_event_read_forward a buf None (length buf) ans
                   (upd a (\<lambda>i. i\<lparr>in_escape := False\<rparr>) w)
            else
              (let (rv, w1) = handle_escapechar a (hd buf) (esc_rv ans) w
               in (1, upd a (\<lambda>i. i\<lparr>in_escape := rv\<rparr>) w1)))
         else
           (case find_escape (escape_char i) buf of
              Some k \<Rightarrow> io_event_read_forward a buf (Some k) k ans w
            | None \<Rightarrow> io_event_read_forward a buf None (length buf) ans w))
      else io_event_read_forward a buf None (length buf) ans w)"

text \<open>
  \<^verbatim>\<open>io_event\<close> for the event \<^verbatim>\<open>GENSIO_EVENT_WRITE_READY\<close> on the endpoint at \<open>a\<close>: the error
  check at its entry and the write-ready case. \<open>rv\<close> and \<open>count\<close> are what \<^verbatim>\<open>gensio_write\<close>
  returned. A \<^verbatim>\<open>send_done\<close> callback is taken not to touch the queue.
\<close>

definition io_event_write_ready :: "nat \<Rightarrow> gensio_err \<Rightarrow> gensio_err \<Rightarrow> nat \<Rightarrow> ioworld \<Rightarrow> ioworld" where
  "io_event_write_ready a err rv count w =
     (let i = infos w a; r = otherio i in
      if err \<noteq> GE_NOERR then
        emit (UhShutdown a False) (if err \<noteq> GE_REMCLOSE then emit (IoinfoErr a err) w else w)
      else
        case oob_head i of
          Some p \<Rightarrow>
            (let oob = oob_mem w p;
                 w1 = emit (GensioWrite (io i) (take (oob_len oob) (oob_buf oob)) (Some oobaux)) w
             in if rv \<noteq> GE_NOERR then emit (UhShutdown a False) (emit (IoinfoErr r rv) w1)
                else if count \<ge> oob_len oob then
                  (let w2 = (case oob_send_done oob of
                               Some f \<Rightarrow> emit (SendDone f (oob_cb_data oob)) w1
                             | None \<Rightarrow> w1);
                       w3 = upd a (\<lambda>i. i\<lparr>oob_head := oob_next oob\<rparr>) w2
                   in if oob_head (infos w3 a) = None
                      then upd a (\<lambda>i. i\<lparr>oob_tail := None\<rparr>) w3 else w3)
                else
                  w1\<lparr>oob_mem := (oob_mem w1)
                        (p := oob\<lparr>oob_buf := drop count (oob_buf oob),
                                  oob_len := oob_len oob - count\<rparr>)\<rparr>)
        | None \<Rightarrow> emit (SetWriteEnable (io i) False)
                    (emit (SetReadEnable (io (infos w r)) True) w))"

text \<open>A write without the tag \<open>oob\<close>.\<close>

fun is_normal_write :: "io_effect \<Rightarrow> bool" where
  "is_normal_write (GensioWrite g b a) = (a \<noteq> Some oobaux)"
| "is_normal_write _ = False"

text \<open>
  An example: two endpoints, at the addresses 1 and 2, each the other's peer, on the
  gensios 11 and 12, both ready and without an escape character; one record of 100
  bytes is queued on the first.
\<close>

definition ioinfo_fresh :: "nat \<Rightarrow> nat \<Rightarrow> ioinfo" where
  "ioinfo_fresh g other = \<lparr>io = g, otherio = other, ready = True, escape_char = - 1,
     in_escape = False, escape_data = replicate 11 0, escape_pos = 0, sh = False,
     uh_oobdata = False, oob_head = None, oob_tail = None\<rparr>"

definition ioworld_empty :: ioworld where
  "ioworld_empty = \<lparr>infos = (\<lambda>a. if a = 1 then ioinfo_fresh 11 2 else ioinfo_fresh 12 1),
     oob_mem = (\<lambda>_. \<lparr>oob_buf = [], oob_len = 0, oob_send_done = None, oob_cb_data = 0,
                      oob_next = None\<rparr>),
     effects = []\<rparr>"

definition oob100 :: ioinfo_oob where
  "oob100 = \<lparr>oob_buf = replicate 100 7, oob_len = 100, oob_send_done = Some 3,
              oob_cb_data = 8, oob_next = Some 77\<rparr>"

definition ioworld_queued :: ioworld where
  "ioworld_queued = ioinfo_sendoob 1 1 (ioworld_empty\<lparr>oob_mem := (oob_mem ioworld_empty)(1 := oob100)\<rparr>)"

text \<open>What \<^verbatim>\<open>gensio_write\<close> answers when it takes two bytes.\<close>

definition wrote2 :: rd_answers where
  "wrote2 = \<lparr>oob_taken = 0, esc_rv = False, wr_rv = GE_NOERR, wr_count = 2\<rparr>"

section \<open>The avahi poll bridge: timeouts\<close>

text \<open>
  \<^verbatim>\<open>struct timeval\<close>: two signed 64-bit fields, kept as integers. Arithmetic on them
  is written with its width: \<open>wrap64\<close> and \<open>wrap32\<close> give the value a signed 64-bit
  or 32-bit field holds after a result is stored in it.
\<close>

record timeval =
  tv_sec :: int
  tv_usec :: int

definition wrap64 :: "int \<Rightarrow> int" where
  "wrap64 x = sint (word_of_int x :: 64 word)"

definition wrap32 :: "int \<Rightarrow> int" where
  "wrap32 x = sint (word_of_int x :: 32 word)"

text \<open>
  Modelled from the spec: \<^verbatim>\<open>gensio_time\<close> (its declaration is not among the sources;
  the constructor of the scripting interface takes a \<^verbatim>\<open>long\<close> and an \<^verbatim>\<open>int\<close>), a signed
  64-bit count of seconds and a signed 32-bit count of nanoseconds.
\<close>

record gensio_time =
  secs :: int
  nsecs :: int

text \<open>
  The calls on the OS timer and the releases, in program order.
  \<^verbatim>\<open>gensio_avahi_poll_deref\<close> is logged as one step.
\<close>

datatype at_effect =
    StartTimer gensio_time
  | StopTimerWithDone
  | FreeTimer
  | FreeTimeout
  | PollDeref

text \<open>\<^verbatim>\<open>struct AvahiTimeout\<close>.\<close>

record AvahiTimeout =
  at_tv :: timeval
  at_stopped :: bool
  at_in_update :: bool
  at_freed :: bool
  at_log :: "at_effect list"

definition at_emit :: "at_effect \<Rightarrow> AvahiTimeout \<Rightarrow> AvahiTimeout" where
  "at_emit e at = at\<lparr>at_log := at_log at @ [e]\<rparr>"

definition tv_cmp :: "timeval \<Rightarrow> timeval \<Rightarrow> int" where
  "tv_cmp tv1 tv2 =
     (if tv_sec tv1 < tv_sec tv2 then -1
      else if tv_sec tv1 > tv_sec tv2 then 1
      else if tv_usec tv1 < tv_usec tv2 then -1
      else if tv_usec tv1 > tv_usec tv2 then 1
      else 0)"

text \<open>
  The relative time \<^verbatim>\<open>do_timer_start\<close> computes from the expiry time and the current
  time (\<^verbatim>\<open>gettimeofday\<close>). The difference of the microseconds is multiplied in 64
  bits and stored in the 32-bit \<^verbatim>\<open>nsecs\<close>; a negative \<^verbatim>\<open>nsecs\<close> is then raised by a second
  taken from \<^verbatim>\<open>secs\<close>.
\<close>

definition timer_delay :: "timeval \<Rightarrow> timeval \<Rightarrow> gensio_time" where
  "timer_delay tv now =
     (if tv_cmp tv now \<le> 0 then \<lparr>secs = 0, nsecs = 0\<rparr>
      else
        let gt = \<lparr>secs = wrap64 (tv_sec tv - tv_sec now),
                  nsecs = wrap32 (wrap64 (wrap64 (tv_usec tv - tv_usec now) * 1000))\<rparr>
        in if nsecs gt < 0
           then \<lparr>secs = wrap64 (secs gt - 1), nsecs = wrap32 (nsecs gt + 1000000000)\<rparr>
           else gt)"

definition do_timer_start :: "timeval \<Rightarrow> AvahiTimeout \<Rightarrow> AvahiTimeout" where
  "do_timer_start now at = at_emit (StartTimer (timer_delay (at_tv at) now)) at"

definition i_gensio_avahi_timer_stopped :: "timeval \<Rightarrow> AvahiTimeout \<Rightarrow> AvahiTimeout" where
  "i_gensio_avahi_timer_stopped now at =
     (if at_freed at then at_emit PollDeref (at_emit FreeTimeout (at_emit FreeTimer at))
      else if at_in_update at then
        (let at1 = at\<lparr>at_in_update := False\<rparr> in
         if \<not> at_stopped at1 then do_timer_start now at1 else at1)
      else at)"

definition gensio_avahi_timer_stopped :: "timeval \<Rightarrow> AvahiTimeout \<Rightarrow> AvahiTimeout" where
  "gensio_avahi_timer_stopped now at = i_gensio_avahi_timer_stopped now at"

text \<open>
  \<^verbatim>\<open>gensio_avahi_timeout_update\<close>; \<open>rv\<close> is what \<^verbatim>\<open>stop_timer_with_done\<close> returns if it is
  called.
\<close>

definition gensio_avahi_timeout_update ::
  "gensio_err \<Rightarrow> timeval \<Rightarrow> timeval option \<Rightarrow> AvahiTimeout \<Rightarrow> AvahiTimeout" where
  "gensio_avahi_timeout_update rv now tv at =
     (if tv = None \<and> at_stopped at then at
      else
        let at1 = (case tv of
                     Some t \<Rightarrow> at\<lparr>at_tv := t, at_stopped := False\<rparr>
                   | None \<Rightarrow> at\<lparr>at_stopped := True\<rparr>)
        in if \<not> at_in_update at1 then
             (let at2 = at_emit StopTimerWithDone (at1\<lparr>at_in_update := True\<rparr>) in
              if rv = GE_TIMEDOUT then i_gensio_avahi_timer_stopped now at2 else at2)
           else at1)"

text \<open>A timeout as \<^verbatim>\<open>gensio_avahi_timeout_new\<close> sets it up, and two times.\<close>

definition at_new :: AvahiTimeout where
  "at_new = \<lparr>at_tv = \<lparr>tv_sec = 0, tv_usec = 0\<rparr>, at_stopped = True, at_in_update = False,
             at_freed = False, at_log = []\<rparr>"

definition tv1 :: timeval where "tv1 = \<lparr>tv_sec = 10, tv_usec = 200\<rparr>"
definition now1 :: timeval where "now1 = \<lparr>tv_sec = 8, tv_usec = 500\<rparr>"

text \<open>An expiry time whose microseconds are not below a million, and a current time.\<close>

definition tv2 :: timeval where "tv2 = \<lparr>tv_sec = 10, tv_usec = 3000000\<rparr>"
definition now2 :: timeval where "now2 = \<lparr>tv_sec = 8, tv_usec = 0\<rparr>"

text \<open>The lower layer on handle 5 after \<^verbatim>\<open>set_read_callback_enable(true)\<close>.\<close>

definition ll_reading :: fd_ll where
  "ll_reading = fd_set_read_callback_enable True ll_open"

text \<open>The calls of a close-done callback among the events.\<close>

fun is_close_done :: "ll_event \<Rightarrow> bool" where
  "is_close_done (CbCloseDone f d x) = True"
| "is_close_done _ = False"

definition close_dones :: "ll_event list \<Rightarrow> ll_event list" where
  "close_dones t = filter is_close_done t"

text \<open>The state is neither OPEN nor IN_OPEN: a close is refused.\<close>

definition closing :: "fd_ll \<Rightarrow> bool" where
  "closing s = (state s \<noteq> FD_OPEN \<and> state s \<noteq> FD_IN_OPEN)"

text \<open>The fields a close in progress depends on.\<close>

definition cfields :: "fd_ll \<Rightarrow> cbref option \<times> dataref \<times> dataref \<times> bool \<times> bool" where
  "cfields s = (close_done s, close_data s, cb_data s, deferred_op_pending s, deferred_close s)"

text \<open>
  From \<open>s\<close> to \<open>s'\<close> the close in progress was left alone: no close-done call, the same
  fields, still not open.
\<close>

definition close_kept :: "fd_ll \<Rightarrow> fd_ll \<Rightarrow> bool" where
  "close_kept s s' =
     (closing s' \<and> cfields s' = cfields s \<and> close_dones (trace s') = close_dones (trace s))"

text \<open>
  A close asked for on the example lower layer: with nothing else going on, and with a
  deferred read queued just before.
\<close>

definition ll_closing_quiet :: fd_ll where
  "ll_closing_quiet = snd (fd_close (Some 9) 3 ll_open)"

definition ll_closing_pending :: fd_ll where
  "ll_closing_pending =
     snd (fd_close (Some 9) 3 (fd_set_read_callback_enable True ll_buffered))"

section \<open>The event log of a run\<close>

subsection \<open>What the log must look like\<close>

text \<open>
  The discipline of the lock, the reference count and the read buffer, read off the
  event log from left to right. The state is: whether the lock is held, the reference
  count, whether the struct was freed, and the bytes read from the handle that no read
  up-call has taken yet. An event that breaks the discipline gives \<open>None\<close>:
  \<^item> the lock is taken only when free and released only when held; nothing at all
    happens after the struct was freed;
  \<^item> the count is raised and lowered only under the lock, is never lowered from zero
    and never wraps; once it is zero only the unlock and the free follow; the struct
    is freed with the lock released and the count at zero;
  \<^item> an up-call is made with the lock released;
  \<^item> a read up-call is handed exactly the bytes not yet taken, and takes the first
    \<open>n\<close> of them; with an error it is handed nothing; the handle is read only when no
    byte is left over;
  \<^item> for a write-only lower layer (\<open>wo\<close>) the handle is never read and the read
    handler never enabled.
\<close>

type_synonym mstate = "bool \<times> 32 word \<times> bool \<times> byte list"

fun mon_step :: "bool \<Rightarrow> ll_event \<Rightarrow> mstate \<Rightarrow> mstate option" where
  "mon_step wo EvLock (l, r, f, q) =
     (if \<not> f \<and> \<not> l \<and> r \<noteq> 0 then Some (True, r, f, q) else None)"
| "mon_step wo EvUnlock (l, r, f, q) = (if \<not> f \<and> l then Some (False, r, f, q) else None)"
| "mon_step wo EvRef (l, r, f, q) =
     (if \<not> f \<and> l \<and> r \<noteq> 0 \<and> r + 1 \<noteq> 0 then Some (l, r + 1, f, q) else None)"
| "mon_step wo EvDeref (l, r, f, q) =
     (if \<not> f \<and> l \<and> r \<noteq> 0 then Some (l, r - 1, f, q) else None)"
| "mon_step wo EvFree (l, r, f, q) =
     (if \<not> f \<and> \<not> l \<and> r = 0 then Some (l, r, True, q) else None)"
| "mon_step wo (CbRead d err bs aux n) (l, r, f, q) =
     (if \<not> f \<and> \<not> l \<and> r \<noteq> 0 \<and> bs = q \<and> (err \<noteq> GE_NOERR \<longrightarrow> q = [])
      then Some (l, r, f, if err = GE_NOERR then drop n q else []) else None)"
| "mon_step wo (CbWriteReady d) (l, r, f, q) =
     (if \<not> f \<and> \<not> l \<and> r \<noteq> 0 then Some (l, r, f, q) else None)"
| "mon_step wo (CbOpenDone c d err x) (l, r, f, q) =
     (if \<not> f \<and> \<not> l \<and> r \<noteq> 0 then Some (l, r, f, q) else None)"
| "mon_step wo (CbCloseDone c d x) (l, r, f, q) =
     (if \<not> f \<and> \<not> l \<and> r \<noteq> 0 then Some (l, r, f, q) else None)"
| "mon_step wo (DoRead h sz err bs) (l, r, f, q) =
     (if \<not> f \<and> r \<noteq> 0 \<and> \<not> wo \<and> q = [] then Some (l, r, f, if err = GE_NOERR then bs else [])
      else None)"
| "mon_step wo (OsSetReadHandler h b) (l, r, f, q) =
     (if \<not> f \<and> r \<noteq> 0 \<and> \<not> (wo \<and> b) then Some (l, r, f, q) else None)"
| "mon_step wo e (l, r, f, q) = (if \<not> f \<and> r \<noteq> 0 then Some (l, r, f, q) else None)"

fun mon :: "bool \<Rightarrow> ll_event list \<Rightarrow> mstate \<Rightarrow> mstate option" where
  "mon wo [] a = Some a"
| "mon wo (e # t) a = (case mon_step wo e a of None \<Rightarrow> None | Some a' \<Rightarrow> mon wo t a')"

text \<open>The up-calls that carry no read data.\<close>

fun plain_upcall :: "ll_event \<Rightarrow> bool" where
  "plain_upcall (CbWriteReady d) = True"
| "plain_upcall (CbOpenDone c d err x) = True"
| "plain_upcall (CbCloseDone c d x) = True"
| "plain_upcall _ = False"

text \<open>
  The bound on the reference count: besides the owner's reference there is at most
  one held for the queued deferred runner and, at level \<open>k = 2\<close>, one held by the
  handler that is running. The count is zero exactly when the struct was freed.
\<close>

definition rcb :: "nat \<Rightarrow> fd_ll \<Rightarrow> bool" where
  "rcb k s = (1 \<le> k \<and> k \<le> 2 \<and> unat (refcount s) \<le> Suc k
      \<and> (\<not> deferred_op_pending s \<longrightarrow> unat (refcount s) \<le> k)
      \<and> (refcount s = 0) = freed s)"

text \<open>
  The invariant of a lower layer allocated write-only or not (\<open>wo\<close>): its log keeps the
  discipline and ends in the state the struct is in, with \<open>q\<close> the bytes not yet taken;
  a write-only lower layer has read disabled. In \<open>ll_inv\<close> the bytes not yet taken are
  the ones the buffer offers.
\<close>

definition invq :: "bool \<Rightarrow> nat \<Rightarrow> byte list \<Rightarrow> fd_ll \<Rightarrow> bool" where
  "invq wo k q s =
     (write_only s = wo \<and> (wo \<longrightarrow> \<not> read_enabled s \<and> \<not> os_read_on s)
      \<and> mon wo (trace s) (False, 1, False, []) = Some (locked s, refcount s, freed s, q)
      \<and> rcb k s)"

definition ll_inv :: "bool \<Rightarrow> nat \<Rightarrow> fd_ll \<Rightarrow> bool" where
  "ll_inv wo k s = (invq wo k (offered s) s \<and> (read_data_len s = 0 \<longrightarrow> read_data_pos s = 0))"

text \<open>
  The invariant between two steps of the code: with the lock free on a live struct,
  with the lock held, and at the end of a handler, where the struct may be gone.
\<close>

definition idle :: "bool \<Rightarrow> nat \<Rightarrow> fd_ll \<Rightarrow> bool" where
  "idle wo k s = (ll_inv wo k s \<and> \<not> locked s \<and> \<not> freed s)"

definition held :: "bool \<Rightarrow> nat \<Rightarrow> fd_ll \<Rightarrow> bool" where
  "held wo k s = (ll_inv wo k s \<and> locked s \<and> \<not> freed s)"

definition ended :: "bool \<Rightarrow> nat \<Rightarrow> fd_ll \<Rightarrow> bool" where
  "ended wo k s = (ll_inv wo k s \<and> \<not> locked s)"

definition idleq :: "bool \<Rightarrow> nat \<Rightarrow> byte list \<Rightarrow> fd_ll \<Rightarrow> bool" where
  "idleq wo k q s = (invq wo k q s \<and> \<not> locked s \<and> \<not> freed s)"

definition endedq :: "bool \<Rightarrow> nat \<Rightarrow> byte list \<Rightarrow> fd_ll \<Rightarrow> bool" where
  "endedq wo k q s = (invq wo k q s \<and> \<not> locked s)"

text \<open>
  What holds of the result of a step: \<open>ok_after\<close> also says that the step does not
  fail the assertion, \<open>after\<close> speaks of the result alone.
\<close>

definition ok_after :: "('a \<Rightarrow> bool) \<Rightarrow> fault + 'a \<Rightarrow> bool" where
  "ok_after P m = (case m of Inl e \<Rightarrow> e \<noteq> AssertFailed | Inr x \<Rightarrow> P x)"

definition after :: "('a \<Rightarrow> bool) \<Rightarrow> fault + 'a \<Rightarrow> bool" where
  "after P m = (case m of Inl e \<Rightarrow> True | Inr x \<Rightarrow> P x)"

text \<open>A list begins with another.\<close>

definition starts :: "'a list \<Rightarrow> 'a list \<Rightarrow> bool" where
  "starts p t = (\<exists>u. t = p @ u)"

subsection \<open>The read stream\<close>

text \<open>
  The bytes read from the handle and not yet taken by the consumer, followed along the
  log: the handle is read only when none are left, a read up-call is handed exactly
  these bytes and takes the first \<open>n\<close> of them, and an error is delivered only when
  none are left.
\<close>

fun fifo_step :: "ll_event \<Rightarrow> byte list \<Rightarrow> byte list option" where
  "fifo_step (DoRead h sz err bs) q =
     (if q = [] then Some (if err = GE_NOERR then bs else []) else None)"
| "fifo_step (CbRead d err bs aux n) q =
     (if bs = q \<and> (err \<noteq> GE_NOERR \<longrightarrow> q = [])
      then Some (if err = GE_NOERR then drop n q else []) else None)"
| "fifo_step e q = Some q"

fun fifo :: "ll_event list \<Rightarrow> byte list \<Rightarrow> byte list option" where
  "fifo [] q = Some q"
| "fifo (e # t) q = (case fifo_step e q of None \<Rightarrow> None | Some q' \<Rightarrow> fifo t q')"

text \<open>The read handler is enabled, or the handle is read.\<close>

fun arms_or_reads :: "ll_event \<Rightarrow> bool" where
  "arms_or_reads (OsSetReadHandler h b) = b"
| "arms_or_reads (DoRead h sz err bs) = True"
| "arms_or_reads e = False"

subsection \<open>The lock and the reference count\<close>




text \<open>
  What a handler adds to the log: it takes the lock and a reference first, and last
  it drops the reference under the lock and unlocks; the struct is freed after that
  when the count went to zero. The deferred runner takes the lock only: its reference
  was taken when it was queued.
\<close>

definition bracketed :: "fd_ll \<Rightarrow> fd_ll \<Rightarrow> bool" where
  "bracketed s s' =
     (\<exists>t. trace s' = trace s @ [EvLock, EvRef] @ t @ [EvDeref, EvUnlock]
                      @ (if refcount s' = 0 then [EvFree] else []))"


subsection \<open>Example runs\<close>

text \<open>A read of three bytes, and a read that finds nothing.\<close>

definition rd123 :: read_result where
  "rd123 = \<lparr>rd_err = GE_NOERR, rd_bytes = [1, 2, 3], rd_aux = None\<rparr>"

definition rd_nothing :: read_result where
  "rd_nothing = \<lparr>rd_err = GE_NOERR, rd_bytes = [], rd_aux = None\<rparr>"

text \<open>
  Read is enabled and three bytes arrive; the consumer takes one and disables read.
  Read is enabled again, and the deferred runner delivers; the consumer takes one
  more byte and disables read.
\<close>

definition short_read_run :: "input list" where
  "short_read_run =
     [InSetRead True, InReadReady False rd123 [(1, [CallSetRead False])], InSetRead True,
      InRunner [] [[(1, [CallSetRead False])]]]"

definition ll_after_short_reads :: fd_ll where
  "ll_after_short_reads =
     ll_open\<lparr>read_data := [1, 2, 3, 0], read_data_len := 1, read_data_pos := 2,
            trace :=
              [OsSetFdHandlers 5, EvLock, OsSetReadHandler 5 True,
               OsSetExceptHandler 5 True, EvUnlock, EvLock, EvRef,
               OsSetReadHandler 5 False, OsSetExceptHandler 5 False, EvUnlock,
               DoRead 5 4 GE_NOERR [1, 2, 3],
               CbRead 0 GE_NOERR [1, 2, 3] None 1, EvLock, EvUnlock, EvLock,
               EvDeref, EvUnlock, EvLock, EvRef, OsRun, EvUnlock, EvLock,
               EvUnlock, CbRead 0 GE_NOERR [2, 3] None 1, EvLock, EvUnlock,
               EvLock, OsSetReadHandler 5 False, OsSetExceptHandler 5 False,
               OsSetWriteHandler 5 False, EvDeref, EvUnlock]\<rparr>"



text \<open>
  The lower layer allocated on handle 5 with a read buffer of size 0, not write-only
  and write-only.
\<close>

definition ll_zero :: fd_ll where
  "ll_zero = ll_open\<lparr>read_data := [], read_data_size := 0\<rparr>"

definition ll_write_only :: fd_ll where
  "ll_write_only = ll_zero\<lparr>write_only := True\<rparr>"

text \<open>
  Read and write are enabled, a write-ready event and a read-ready event arrive.
\<close>

definition write_only_run :: "input list" where
  "write_only_run =
     [InSetRead True, InSetWrite True,
      InWriteReady \<lparr>chk_err = GE_NOERR, retry_err = GE_NOERR, retry_fd = None, setup_ok = True\<rparr> [],
      InReadReady False rd_nothing [(0, [])]]"

definition ll_after_write_only_run :: fd_ll where
  "ll_after_write_only_run =
     ll_write_only\<lparr>write_enabled := True, os_write_on := True,
        trace :=
          [OsSetFdHandlers 5, EvLock, EvUnlock, EvLock,
           OsSetWriteHandler 5 True, EvUnlock, EvLock, EvRef,
           OsSetWriteHandler 5 False, EvUnlock, CbWriteReady 0, EvLock,
           OsSetWriteHandler 5 True, EvDeref, EvUnlock]\<rparr>"

text \<open>Read is enabled and a read-ready event arrives.\<close>

definition zero_size_run :: "input list" where
  "zero_size_run = [InSetRead True, InReadReady False rd_nothing []]"

definition ll_after_zero_size_run :: fd_ll where
  "ll_after_zero_size_run =
     ll_zero\<lparr>read_enabled := True, os_read_on := True, os_except_on := True,
        trace :=
          [OsSetFdHandlers 5, EvLock, OsSetReadHandler 5 True,
           OsSetExceptHandler 5 True, EvUnlock, EvLock, EvRef,
           OsSetReadHandler 5 False, OsSetExceptHandler 5 False, EvUnlock,
           DoRead 5 0 GE_NOERR [], EvLock, OsSetReadHandler 5 True,
           OsSetExceptHandler 5 True, EvDeref, EvUnlock]\<rparr>"

section \<open>Properties\<close>

subsection \<open>Auxiliary facts\<close>

lemmas prim_defs = log_def fd_lock_def fd_unlock_def fd_ref_def fd_lock_and_ref_def
  os_set_read_handler_def os_set_write_handler_def os_set_except_handler_def
  os_clear_fd_handlers_def os_clear_fd_handlers_norpt_def os_close_def os_run_def
  os_start_timer_def fd_finish_free_def

lemmas api_defs = fd_start_close_def fd_close_def fd_sched_deferred_op_def
  fd_set_read_callback_enable_def fd_set_write_callback_enable_def fd_disable_def

lemma ll_open_alloc: "fd_gensio_ll_alloc 5 plain_ops 4 False True = Some ll_open"
  by (simp add: fd_gensio_ll_alloc_def fd_setup_handlers_def log_def ll_open_def
        numeral_eq_Suc)

lemma and_then_Inr:
  "and_then m f = Inr y \<longleftrightarrow> (\<exists>x. m = Inr x \<and> f x = Inr y)"
  by (cases m) (simp_all add: and_then_def)

lemma do_call_upcalls:
  "do_call c s = Inr s' \<Longrightarrow> upcalls (trace s') = upcalls (trace s)"
  by (cases c)
     (auto simp: api_defs prim_defs fd_free_def fd_deref_and_unlock_def upcalls_def Let_def
           split: if_splits)

lemma do_call_rdbuf:
  "do_call c s = Inr s' \<Longrightarrow> rdbuf s' = rdbuf s"
  by (cases c)
     (auto simp: api_defs prim_defs fd_free_def fd_deref_and_unlock_def rdbuf_def Let_def
           split: if_splits)

lemma do_call_trace:
  "do_call c s = Inr s' \<Longrightarrow> \<exists>t. trace s' = trace s @ t"
  by (cases c)
     (auto simp: api_defs prim_defs fd_free_def fd_deref_and_unlock_def Let_def
           split: if_splits)

lemma do_calls_upcalls:
  "do_calls cs s = Inr s' \<Longrightarrow> upcalls (trace s') = upcalls (trace s)"
proof (induction cs arbitrary: s)
  case Nil
  then show ?case by simp
next
  case (Cons c cs)
  then obtain s1 where "do_call c s = Inr s1" and "do_calls cs s1 = Inr s'"
    by (auto simp: and_then_Inr split: if_splits)
  then show ?case using Cons.IH do_call_upcalls by metis
qed

lemma do_calls_rdbuf:
  "do_calls cs s = Inr s' \<Longrightarrow> rdbuf s' = rdbuf s"
proof (induction cs arbitrary: s)
  case Nil
  then show ?case by simp
next
  case (Cons c cs)
  then obtain s1 where "do_call c s = Inr s1" and "do_calls cs s1 = Inr s'"
    by (auto simp: and_then_Inr split: if_splits)
  then show ?case using Cons.IH do_call_rdbuf by metis
qed

lemma do_calls_trace:
  "do_calls cs s = Inr s' \<Longrightarrow> \<exists>t. trace s' = trace s @ t"
proof (induction cs arbitrary: s)
  case Nil
  then show ?case by simp
next
  case (Cons c cs)
  then obtain s1 where a: "do_call c s = Inr s1" and b: "do_calls cs s1 = Inr s'"
    by (auto simp: and_then_Inr split: if_splits)
  from do_call_trace [OF a] Cons.IH [OF b] show ?case by auto
qed

lemma upcall_upcalls:
  "upcall e calls s = Inr s' \<Longrightarrow> is_upcall e \<Longrightarrow> upcalls (trace s') = upcalls (trace s) @ [e]"
  by (auto simp: upcall_def and_then_Inr log_def upcalls_def split: if_splits
           dest!: do_calls_upcalls)

lemma upcall_rdbuf:
  "upcall e calls s = Inr s' \<Longrightarrow> rdbuf s' = rdbuf s"
  by (auto simp: upcall_def and_then_Inr log_def rdbuf_def split: if_splits
           dest!: do_calls_rdbuf)

lemma upcall_trace:
  "upcall e calls s = Inr s' \<Longrightarrow> \<exists>t. trace s' = trace s @ e # t"
  by (auto simp: upcall_def and_then_Inr log_def split: if_splits
           dest!: do_calls_trace)

subsection \<open>Close and disable\<close>

text \<open>
  C7. \<^verbatim>\<open>fd_close\<close> in a state other than OPEN and IN_OPEN returns NOTREADY and leaves
  every field of the lower layer as it was (the lock is taken and released); in OPEN
  or IN_OPEN it returns 0, stores the done callback and its data, and the state
  becomes IN_CLOSE.
\<close>

theorem fd_close_notready_or_in_close:
  "(state s \<noteq> FD_OPEN \<and> state s \<noteq> FD_IN_OPEN \<longrightarrow>
      fd_close done cdata s =
        (GE_NOTREADY, s\<lparr>locked := False, trace := trace s @ [EvLock, EvUnlock]\<rparr>))
   \<and> (state s = FD_OPEN \<or> state s = FD_IN_OPEN \<longrightarrow>
      fst (fd_close done cdata s) = GE_NOERR \<and>
      close_done (snd (fd_close done cdata s)) = done \<and>
      close_data (snd (fd_close done cdata s)) = cdata \<and>
      state (snd (fd_close done cdata s)) = FD_IN_CLOSE)"
  by (simp add: api_defs prim_defs Let_def)

theorem fd_close_witness:
  "fd_close (Some 9) 3 (fd_disable ll_open) =
     (GE_NOTREADY, (fd_disable ll_open)\<lparr>locked := False,
        trace := [OsSetFdHandlers 5, OsClearFdHandlersNorpt 5, OsClose 5, EvLock, EvUnlock]\<rparr>)
   \<and> fst (fd_close (Some 9) 3 ll_open) = GE_NOERR
   \<and> close_done (snd (fd_close (Some 9) 3 ll_open)) = Some 9
   \<and> state (snd (fd_close (Some 9) 3 ll_open)) = FD_IN_CLOSE"
  using fd_close_notready_or_in_close [of "fd_disable ll_open" "Some 9" 3]
    fd_close_notready_or_in_close [of ll_open "Some 9" 3]
  by (simp add: ll_open_def fd_disable_def prim_defs)

text \<open>
  C9. \<^verbatim>\<open>fd_disable\<close> sets the state to CLOSED, clears the handlers without asking for
  a cleared report and closes the handle; it makes no up-call and leaves the stored
  done callbacks where they are. Afterwards no ready handler of the OS layer runs,
  and disable itself asks for nothing that would call back later: the cleared
  handler, the close timer and the deferred runner run afterwards only if they were
  owed before the call.
\<close>

theorem fd_disable_calls_nothing:
  "fd_disable s =
     s\<lparr>fd := -1, state := FD_CLOSED, os_read_on := False, os_write_on := False,
       os_except_on := False,
       trace := trace s @ [OsClearFdHandlersNorpt (fd s), OsClose (fd s)]\<rparr>
   \<and> upcalls (trace (fd_disable s)) = upcalls (trace s)
   \<and> deliver (InReadReady h rd sc) (fd_disable s) = Inr (fd_disable s)
   \<and> deliver (InWriteReady oa c) (fd_disable s) = Inr (fd_disable s)
   \<and> deliver (InExceptReady oa c) (fd_disable s) = Inr (fd_disable s)
   \<and> (\<not> os_cleared_due s \<longrightarrow>
        deliver (InCleared chk tmo oc cc) (fd_disable s) = Inr (fd_disable s))
   \<and> (\<not> os_timer_due s \<longrightarrow>
        deliver (InTimer chk tmo oc cc) (fd_disable s) = Inr (fd_disable s))
   \<and> (\<not> os_runner_due s \<longrightarrow>
        deliver (InRunner cc scripts) (fd_disable s) = Inr (fd_disable s))"
  by (simp add: fd_disable_def prim_defs Let_def upcalls_def)

theorem fd_disable_witness:
  "state (fd_disable (snd (fd_close (Some 9) 3 ll_open))) = FD_CLOSED
   \<and> close_done (fd_disable (snd (fd_close (Some 9) 3 ll_open))) = Some 9
   \<and> upcalls (trace (fd_disable (snd (fd_close (Some 9) 3 ll_open)))) = []
   \<and> \<not> os_cleared_due ll_open \<and> \<not> os_timer_due ll_open \<and> \<not> os_runner_due ll_open
   \<and> trace (fd_disable ll_open) =
        [OsSetFdHandlers 5, OsClearFdHandlersNorpt 5, OsClose 5]
   \<and> deliver (InCleared GE_NOERR 0 [] []) (fd_disable ll_open) = Inr (fd_disable ll_open)
   \<and> deliver (InTimer GE_NOERR 0 [] []) (fd_disable ll_open) = Inr (fd_disable ll_open)
   \<and> deliver (InRunner [] []) (fd_disable ll_open) = Inr (fd_disable ll_open)"
  using fd_disable_calls_nothing [of "snd (fd_close (Some 9) 3 ll_open)"]
    fd_disable_calls_nothing [of ll_open _ _ _ _ _ GE_NOERR 0 "[]" "[]" "[]"]
  by (simp add: ll_open_def api_defs prim_defs plain_ops_def upcalls_def)

subsection \<open>Read delivery\<close>

text \<open>
  C10. A read delivery with a non-zero error calls the upward callback once and then
  resets the buffer (position 0, length 0, no aux data), whatever count the callback
  returned; bytes still in the buffer are dropped.
\<close>

theorem deliver_error_resets:
  "err \<noteq> GE_NOERR \<longrightarrow>
     fd_deliver_read_data (r # rs) err s =
       and_then (upcall (CbRead (cb_data s) err (offered s) (auxdata s) (fst r)) (snd r) s)
         (\<lambda>s1. Inr (s1\<lparr>read_data_pos := 0, read_data_len := 0, auxdata := None\<rparr>))
     \<and> (\<forall>s'. fd_deliver_read_data (r # rs) err s = Inr s' \<longrightarrow>
           upcalls (trace s') =
             upcalls (trace s) @ [CbRead (cb_data s) err (offered s) (auxdata s) (fst r)]
           \<and> read_data_pos s' = 0 \<and> read_data_len s' = 0 \<and> auxdata s' = None)"
proof (intro impI conjI allI)
  assume e: "err \<noteq> GE_NOERR"
  show eq: "fd_deliver_read_data (r # rs) err s =
       and_then (upcall (CbRead (cb_data s) err (offered s) (auxdata s) (fst r)) (snd r) s)
         (\<lambda>s1. Inr (s1\<lparr>read_data_pos := 0, read_data_len := 0, auxdata := None\<rparr>))"
    using e by (simp add: fd_deliver_read_data_def and_then_def split: sum.splits)
  fix s'
  assume r: "fd_deliver_read_data (r # rs) err s = Inr s'"
  then obtain s1 where
    u: "upcall (CbRead (cb_data s) err (offered s) (auxdata s) (fst r)) (snd r) s = Inr s1"
    and s': "s' = s1\<lparr>read_data_pos := 0, read_data_len := 0, auxdata := None\<rparr>"
    unfolding eq by (auto simp: and_then_Inr)
  from upcall_upcalls [OF u] s'
  show "upcalls (trace s') =
          upcalls (trace s) @ [CbRead (cb_data s) err (offered s) (auxdata s) (fst r)]"
    by simp
  from s' show "read_data_pos s' = 0" by simp
  from s' show "read_data_len s' = 0" by simp
  from s' show "auxdata s' = None" by simp
qed

theorem deliver_error_witness:
  "GE_REMCLOSE \<noteq> GE_NOERR
   \<and> offered ll_buffered = [1, 2, 3]
   \<and> fd_deliver_read_data [(1, [])] GE_REMCLOSE ll_buffered =
       Inr (ll_buffered\<lparr>read_data_len := 0, auxdata := None,
              trace := [OsSetFdHandlers 5, CbRead 0 GE_REMCLOSE [1, 2, 3] None 1]\<rparr>)"
  using deliver_error_resets [of GE_REMCLOSE "(1, [])" "[]" ll_buffered]
  by (simp add: ll_buffered_def ll_open_def offered_def upcall_def and_then_def log_def)

subsection \<open>The out-of-band queue\<close>

text \<open>
  C4, as the claim states it, fails: a record that takes two write-ready events is
  not kept free of normal data. The record of 100 bytes is written as 40 and 60 on
  the first endpoint's gensio; between the two events a read event on the other
  endpoint forwards its two bytes to that same gensio, untagged, while the record is
  still at the head of the queue.
\<close>

theorem oob_interleaved_counterexample:
  "oob_head (infos (io_event_write_ready 1 GE_NOERR GE_NOERR 40 ioworld_queued) 1) = Some 1
   \<and> oob_len (oob_mem (io_event_write_ready 1 GE_NOERR GE_NOERR 40 ioworld_queued) 1) = 60
   \<and> effects (io_event_write_ready 1 GE_NOERR GE_NOERR 60
                (snd (io_event_read 2 GE_NOERR [5, 6] None wrote2
                        (io_event_write_ready 1 GE_NOERR GE_NOERR 40 ioworld_queued)))) =
       [SetWriteEnable 11 True,
        GensioWrite 11 (replicate 100 7) (Some oobaux),
        GensioWrite 11 [5, 6] None,
        GensioWrite 11 (replicate 60 7) (Some oobaux),
        SendDone 3 8]"
  by (simp add: ioworld_queued_def ioinfo_sendoob_def ioworld_empty_def ioinfo_fresh_def
        oob100_def wrote2_def emit_def upd_def io_event_write_ready_def io_event_read_def
        io_event_read_forward_def gensio_str_in_auxdata_def Let_def)

text \<open>
  C4, amended. A write-ready event (which carries no error) on an endpoint with a
  queued out-of-band record writes the head record with the aux tag \<open>oob\<close>, and the
  event itself makes no write without that tag. When the write is short, the head
  record stays at the head with its buffer advanced and its length reduced by the
  count written, and \<^verbatim>\<open>send_done\<close> is not called. When the write takes all of the
  record, \<^verbatim>\<open>send_done\<close> (if there is one) is called once and the record is taken off
  the head.
\<close>

theorem oob_write_ready:
  "oob_head (infos w a) = Some p \<longrightarrow>
     (let oob = oob_mem w p; g = io (infos w a);
          w' = io_event_write_ready a GE_NOERR rv count w in
      (\<exists>t. effects w' = effects w @ GensioWrite g (take (oob_len oob) (oob_buf oob)) (Some oobaux) # t
            \<and> \<not> list_ex is_normal_write t)
      \<and> (rv = GE_NOERR \<and> count < oob_len oob \<longrightarrow>
           effects w' = effects w @ [GensioWrite g (take (oob_len oob) (oob_buf oob)) (Some oobaux)]
           \<and> infos w' = infos w
           \<and> oob_mem w' = (oob_mem w)(p := oob\<lparr>oob_buf := drop count (oob_buf oob),
                                                 oob_len := oob_len oob - count\<rparr>))
      \<and> (rv = GE_NOERR \<and> count \<ge> oob_len oob \<longrightarrow>
           effects w' = effects w @ GensioWrite g (take (oob_len oob) (oob_buf oob)) (Some oobaux)
                           # (case oob_send_done oob of Some f \<Rightarrow> [SendDone f (oob_cb_data oob)]
                              | None \<Rightarrow> [])
           \<and> oob_head (infos w' a) = oob_next oob
           \<and> oob_tail (infos w' a) = (if oob_next oob = None then None else oob_tail (infos w a))
           \<and> oob_mem w' = oob_mem w))"
  by (auto simp: io_event_write_ready_def emit_def upd_def Let_def split: option.splits)

theorem oob_write_ready_witness:
  "oob_head (infos ioworld_queued 1) = Some 1
   \<and> effects (io_event_write_ready 1 GE_NOERR GE_NOERR 40 ioworld_queued) =
       [SetWriteEnable 11 True, GensioWrite 11 (replicate 100 7) (Some oobaux)]
   \<and> oob_len (oob_mem (io_event_write_ready 1 GE_NOERR GE_NOERR 40 ioworld_queued) 1) = 60
   \<and> oob_head (infos (io_event_write_ready 1 GE_NOERR GE_NOERR 40 ioworld_queued) 1) = Some 1
   \<and> effects (io_event_write_ready 1 GE_NOERR GE_NOERR 60
                (io_event_write_ready 1 GE_NOERR GE_NOERR 40 ioworld_queued)) =
       [SetWriteEnable 11 True, GensioWrite 11 (replicate 100 7) (Some oobaux),
        GensioWrite 11 (replicate 60 7) (Some oobaux), SendDone 3 8]
   \<and> oob_head (infos (io_event_write_ready 1 GE_NOERR GE_NOERR 60
                (io_event_write_ready 1 GE_NOERR GE_NOERR 40 ioworld_queued)) 1) = None
   \<and> oob_tail (infos (io_event_write_ready 1 GE_NOERR GE_NOERR 60
                (io_event_write_ready 1 GE_NOERR GE_NOERR 40 ioworld_queued)) 1) = None"
  using oob_write_ready [of ioworld_queued 1 1 GE_NOERR 40]
    oob_write_ready [of "io_event_write_ready 1 GE_NOERR GE_NOERR 40 ioworld_queued" 1 1 GE_NOERR 60]
  by (simp add: ioworld_queued_def ioinfo_sendoob_def ioworld_empty_def ioinfo_fresh_def
        oob100_def emit_def upd_def io_event_write_ready_def Let_def)

subsection \<open>The avahi timeout\<close>

text \<open>
  C8. \<^verbatim>\<open>gensio_avahi_timeout_update\<close> with an expiry time on a timeout that is not
  freed: when no stop is pending and \<^verbatim>\<open>stop_timer_with_done\<close> reports GE_TIMEDOUT, the
  timer is started once, at once; when the stop is accepted (or one is pending
  already, and then no second stop is asked for) nothing is started yet, and the
  stop-done callback starts the timer once with the new expiry time; a further
  stop-done callback starts nothing.
\<close>

theorem timeout_update_restarts_once:
  "\<not> at_freed at \<longrightarrow>
   (let at1 = gensio_avahi_timeout_update rv now (Some tv) at in
    (\<not> at_in_update at \<and> rv = GE_TIMEDOUT \<longrightarrow>
       at_log at1 = at_log at @ [StopTimerWithDone, StartTimer (timer_delay tv now)]
       \<and> \<not> at_in_update at1)
    \<and> (\<not> at_in_update at \<and> rv = GE_NOERR \<longrightarrow>
         at_log at1 = at_log at @ [StopTimerWithDone] \<and> at_in_update at1)
    \<and> (at_in_update at \<longrightarrow> at_log at1 = at_log at \<and> at_in_update at1)
    \<and> (at_in_update at1 \<longrightarrow>
         at_log (gensio_avahi_timer_stopped now' at1) =
           at_log at1 @ [StartTimer (timer_delay tv now')]
         \<and> \<not> at_in_update (gensio_avahi_timer_stopped now' at1)
         \<and> gensio_avahi_timer_stopped now'' (gensio_avahi_timer_stopped now' at1) =
             gensio_avahi_timer_stopped now' at1))"
  by (auto simp: gensio_avahi_timeout_update_def gensio_avahi_timer_stopped_def
        i_gensio_avahi_timer_stopped_def do_timer_start_def at_emit_def Let_def)

theorem timeout_update_witness:
  "\<not> at_freed at_new \<and> \<not> at_in_update at_new
   \<and> at_log (gensio_avahi_timeout_update GE_TIMEDOUT now1 (Some tv1) at_new) =
       [StopTimerWithDone, StartTimer \<lparr>secs = 1, nsecs = 999700000\<rparr>]
   \<and> at_log (gensio_avahi_timeout_update GE_NOERR now1 (Some tv1) at_new) = [StopTimerWithDone]
   \<and> at_in_update (gensio_avahi_timeout_update GE_NOERR now1 (Some tv1) at_new)
   \<and> at_log (gensio_avahi_timer_stopped now1
               (gensio_avahi_timeout_update GE_NOERR now1 (Some tv1) at_new)) =
       [StopTimerWithDone, StartTimer \<lparr>secs = 1, nsecs = 999700000\<rparr>]
   \<and> at_log (gensio_avahi_timeout_update GE_NOERR now1 (Some tv1)
               (gensio_avahi_timeout_update GE_NOERR now1 (Some tv1) at_new)) = [StopTimerWithDone]
   \<and> at_log (gensio_avahi_timeout_update GE_TIMEDOUT now2 (Some tv2) at_new) =
       [StopTimerWithDone, StartTimer \<lparr>secs = 1, nsecs = - 294967296\<rparr>]"
  using timeout_update_restarts_once [of at_new GE_TIMEDOUT now1 tv1 now1 now1]
    timeout_update_restarts_once [of at_new GE_NOERR now1 tv1 now1 now1]
    timeout_update_restarts_once
      [of "gensio_avahi_timeout_update GE_NOERR now1 (Some tv1) at_new" GE_NOERR now1 tv1 now1 now1]
    timeout_update_restarts_once [of at_new GE_TIMEDOUT now2 tv2 now2 now2]
  by (simp add: at_new_def tv1_def now1_def tv2_def now2_def gensio_avahi_timeout_update_def
        gensio_avahi_timer_stopped_def i_gensio_avahi_timer_stopped_def do_timer_start_def
        at_emit_def timer_delay_def tv_cmp_def wrap64_def wrap32_def Let_def)

subsection \<open>A short read while read stays enabled\<close>

lemma offered_advance:
  "offered (s\<lparr>read_data_pos := read_data_pos s + n, read_data_len := read_data_len s - n\<rparr>)
     = drop n (offered s)"
  by (simp add: offered_def drop_take add.commute)

lemma rdbuf_offered: "rdbuf s' = rdbuf s \<Longrightarrow> offered s' = offered s"
  by (simp add: rdbuf_def offered_def)

lemma deliver_retry_trace:
  "deliver_retry rs err s = Inr s' \<Longrightarrow> \<exists>t. trace s' = trace s @ t"
proof (induction rs arbitrary: s)
  case Nil
  then show ?case by simp
next
  case (Cons r rs)
  from Cons.prems obtain s1 where
    u: "upcall (CbRead (cb_data s) err (offered s) (auxdata s) (fst r)) (snd r) s = Inr s1"
    by (auto split: sum.splits)
  from upcall_trace [OF u] obtain t1 where t1: "trace s1 = trace s @ t1" by auto
  show ?case
  proof (cases "err \<noteq> GE_NOERR \<or> fst r \<ge> read_data_len s1")
    case True
    with Cons.prems u t1 show ?thesis by auto
  next
    case False
    let ?s2 = "s1\<lparr>read_data_pos := read_data_pos s1 + fst r,
                  read_data_len := read_data_len s1 - fst r\<rparr>"
    show ?thesis
    proof (cases "read_enabled s1")
      case True
      with False Cons.prems u have "deliver_retry rs err ?s2 = Inr s'" by (simp add: Let_def)
      from Cons.IH [OF this] t1 show ?thesis by auto
    next
      case False
      with \<open>\<not> (err \<noteq> GE_NOERR \<or> fst r \<ge> read_data_len s1)\<close> Cons.prems u t1
      show ?thesis by (auto simp: Let_def)
    qed
  qed
qed

lemma deliver_retry_first:
  "deliver_retry (r # rs) err s = Inr s' \<Longrightarrow>
     \<exists>t. trace s' = trace s @ CbRead (cb_data s) err (offered s) (auxdata s) (fst r) # t"
proof -
  assume a: "deliver_retry (r # rs) err s = Inr s'"
  then obtain s1 where
    u: "upcall (CbRead (cb_data s) err (offered s) (auxdata s) (fst r)) (snd r) s = Inr s1"
    by (auto split: sum.splits)
  from upcall_trace [OF u] obtain t1 where
    t1: "trace s1 = trace s @ CbRead (cb_data s) err (offered s) (auxdata s) (fst r) # t1" by auto
  have "\<exists>t. trace s' = trace s1 @ t"
  proof (cases "err \<noteq> GE_NOERR \<or> fst r \<ge> read_data_len s1")
    case True
    with a u show ?thesis by auto
  next
    case False
    show ?thesis
    proof (cases "read_enabled s1")
      case True
      with False a u have "deliver_retry rs err (s1\<lparr>read_data_pos := read_data_pos s1 + fst r,
                  read_data_len := read_data_len s1 - fst r\<rparr>) = Inr s'" by (simp add: Let_def)
      from deliver_retry_trace [OF this] show ?thesis by simp
    next
      case False
      with \<open>\<not> (err \<noteq> GE_NOERR \<or> fst r \<ge> read_data_len s1)\<close> a u
      show ?thesis by (auto simp: Let_def)
    qed
  qed
  with t1 show ?thesis by auto
qed

text \<open>
  C2, as the claim states it, fails: the consumer takes nothing and leaves read
  enabled, and the same delivery calls it again at once; no runner is queued in
  between.
\<close>

theorem zero_consume_counterexample:
  "read_enabled ll_reading
   \<and> fd_handle_incoming \<lparr>rd_err = GE_NOERR, rd_bytes = [1, 2, 3], rd_aux = None\<rparr>
         [(0, []), (3, [])] ll_reading =
       Inr (ll_reading\<lparr>read_data := [1, 2, 3, 0],
              trace := trace ll_reading @
                [EvLock, EvRef, OsSetReadHandler 5 False, OsSetExceptHandler 5 False, EvUnlock,
                 DoRead 5 4 GE_NOERR [1, 2, 3],
                 CbRead 0 GE_NOERR [1, 2, 3] None 0,
                 CbRead 0 GE_NOERR [1, 2, 3] None 3,
                 EvLock, OsSetReadHandler 5 True, OsSetExceptHandler 5 True, EvDeref,
                 EvUnlock]\<rparr>)"
  by (simp add: ll_reading_def ll_open_def plain_ops_def fd_handle_incoming_def
        fd_deliver_read_data_def upcall_def and_then_def fd_deref_and_unlock_def offered_def
        api_defs prim_defs Let_def)

text \<open>
  C2, amended. When the consumer takes fewer bytes than offered (zero included) and
  read is enabled when it returns, \<^verbatim>\<open>fd_deliver_read_data\<close> goes round its retry loop:
  the next thing it does is to call the consumer again, with the bytes not yet
  taken.
\<close>

theorem short_read_retried_at_once:
  "read_data_len s \<noteq> 0
   \<and> upcall (CbRead (cb_data s) GE_NOERR (offered s) (auxdata s) n) calls s = Inr s1
   \<and> n < read_data_len s \<and> read_enabled s1 \<longrightarrow>
     fd_deliver_read_data ((n, calls) # rs) GE_NOERR s =
       deliver_retry rs GE_NOERR
         (s1\<lparr>read_data_pos := read_data_pos s + n, read_data_len := read_data_len s - n\<rparr>)
     \<and> (\<forall>r rs' s'. rs = r # rs' \<and> fd_deliver_read_data ((n, calls) # rs) GE_NOERR s = Inr s' \<longrightarrow>
           (\<exists>t. trace s' =
              trace s1 @ CbRead (cb_data s) GE_NOERR (drop n (offered s)) (auxdata s) (fst r) # t))"
proof (intro impI conjI allI; elim conjE)
  assume len: "read_data_len s \<noteq> 0"
    and u: "upcall (CbRead (cb_data s) GE_NOERR (offered s) (auxdata s) n) calls s = Inr s1"
    and n: "n < read_data_len s" and en: "read_enabled s1"
  from upcall_rdbuf [OF u] have rb: "rdbuf s1 = rdbuf s" .
  let ?s2 = "s1\<lparr>read_data_pos := read_data_pos s + n, read_data_len := read_data_len s - n\<rparr>"
  from rb have s2: "s1\<lparr>read_data_pos := read_data_pos s1 + n,
                       read_data_len := read_data_len s1 - n\<rparr> = ?s2"
    by (simp add: rdbuf_def)
  show eq: "fd_deliver_read_data ((n, calls) # rs) GE_NOERR s = deliver_retry rs GE_NOERR ?s2"
    using len u n en rb by (simp add: fd_deliver_read_data_def rdbuf_def Let_def)
  fix r rs' s'
  assume rs: "rs = r # rs'"
    and b: "fd_deliver_read_data ((n, calls) # rs) GE_NOERR s = Inr s'"
  from b have c: "deliver_retry rs GE_NOERR ?s2 = Inr s'" unfolding eq .
  from deliver_retry_first [OF c [unfolded rs]] obtain t where
    "trace s' = trace ?s2 @ CbRead (cb_data ?s2) GE_NOERR (offered ?s2) (auxdata ?s2) (fst r) # t"
    by blast
  moreover have "offered ?s2 = drop n (offered s)"
    using offered_advance [of s1 n] rdbuf_offered [OF rb] s2 by simp
  moreover have "cb_data ?s2 = cb_data s" "auxdata ?s2 = auxdata s" using rb
    by (simp_all add: rdbuf_def)
  ultimately show "\<exists>t. trace s' =
      trace s1 @ CbRead (cb_data s) GE_NOERR (drop n (offered s)) (auxdata s) (fst r) # t"
    by simp
qed

theorem short_read_witness:
  "read_data_len ll_buffered \<noteq> 0
   \<and> upcall (CbRead (cb_data ll_buffered) GE_NOERR (offered ll_buffered) (auxdata ll_buffered) 0)
        [] ll_buffered
       = Inr (ll_buffered\<lparr>trace := [OsSetFdHandlers 5, CbRead 0 GE_NOERR [1, 2, 3] None 0]\<rparr>)
   \<and> fd_deliver_read_data [(0, []), (2, [CallSetRead False])] GE_NOERR ll_buffered =
       Inr (ll_buffered\<lparr>read_enabled := False, read_data_pos := 2, read_data_len := 1,
              trace := [OsSetFdHandlers 5, CbRead 0 GE_NOERR [1, 2, 3] None 0,
                        CbRead 0 GE_NOERR [1, 2, 3] None 2, EvLock, EvUnlock]\<rparr>)"
  using short_read_retried_at_once [of ll_buffered 0 "[]"
      "ll_buffered\<lparr>trace := [OsSetFdHandlers 5, CbRead 0 GE_NOERR [1, 2, 3] None 0]\<rparr>"
      "[(2, [CallSetRead False])]"]
  by (simp add: ll_buffered_def ll_open_def plain_ops_def
        fd_deliver_read_data_def upcall_def and_then_def offered_def
        api_defs prim_defs Let_def)

subsection \<open>The close-done callback\<close>

lemmas run_defs = fd_finish_cleared_def fd_finish_close_def fd_deferred_op_def
  fd_deliver_read_data_def upcall_def and_then_def fd_deref_and_unlock_def offered_def
  fd_cleared_def step_def

lemma close_kept_trans:
  "close_kept s s1 \<Longrightarrow> close_kept s1 s2 \<Longrightarrow> close_kept s s2"
  by (simp add: close_kept_def)

lemma do_call_close_kept:
  "closing s \<Longrightarrow> do_call c s = Inr s' \<Longrightarrow> close_kept s s'"
  by (cases c)
     (auto simp: api_defs prim_defs fd_free_def fd_deref_and_unlock_def close_kept_def
        closing_def cfields_def close_dones_def Let_def split: if_splits)

lemma do_calls_close_kept:
  "closing s \<Longrightarrow> do_calls cs s = Inr s' \<Longrightarrow> close_kept s s'"
proof (induction cs arbitrary: s)
  case Nil
  then show ?case by (simp add: close_kept_def)
next
  case (Cons c cs)
  then obtain s1 where a: "do_call c s = Inr s1" and b: "do_calls cs s1 = Inr s'"
    by (auto simp: and_then_Inr split: if_splits)
  from do_call_close_kept [OF Cons.prems(1) a] have k1: "close_kept s s1" .
  then have "closing s1" by (simp add: close_kept_def)
  from Cons.IH [OF this b] k1 show ?case by (rule close_kept_trans [rotated])
qed

lemma upcall_close_kept:
  "closing s \<Longrightarrow> \<not> is_close_done e \<Longrightarrow> upcall e calls s = Inr s' \<Longrightarrow> close_kept s s'"
proof -
  assume c: "closing s" and e: "\<not> is_close_done e" and u: "upcall e calls s = Inr s'"
  from u have d: "do_calls calls (log e s) = Inr s'"
    by (auto simp: upcall_def and_then_Inr split: if_splits)
  from c e have k: "close_kept s (log e s)"
    by (simp add: close_kept_def closing_def cfields_def close_dones_def log_def)
  then have "closing (log e s)" by (simp add: close_kept_def)
  from k do_calls_close_kept [OF this d] show ?thesis by (rule close_kept_trans)
qed

lemma deliver_retry_close_kept:
  "closing s \<Longrightarrow> deliver_retry rs err s = Inr s' \<Longrightarrow> close_kept s s'"
proof (induction rs arbitrary: s)
  case Nil
  then show ?case by simp
next
  case (Cons r rs)
  from Cons.prems obtain s1 where
    u: "upcall (CbRead (cb_data s) err (offered s) (auxdata s) (fst r)) (snd r) s = Inr s1"
    by (auto split: sum.splits)
  from upcall_close_kept [OF Cons.prems(1) _ u] have k1: "close_kept s s1" by simp
  show ?case
  proof (cases "err \<noteq> GE_NOERR \<or> fst r \<ge> read_data_len s1")
    case True
    with Cons.prems u k1 show ?thesis
      by (auto simp: close_kept_def closing_def cfields_def)
  next
    case False
    let ?s2 = "s1\<lparr>read_data_pos := read_data_pos s1 + fst r,
                  read_data_len := read_data_len s1 - fst r\<rparr>"
    from k1 have k2: "close_kept s ?s2" by (simp add: close_kept_def closing_def cfields_def)
    show ?thesis
    proof (cases "read_enabled s1")
      case True
      with False Cons.prems u have "deliver_retry rs err ?s2 = Inr s'" by (simp add: Let_def)
      moreover from k2 have "closing ?s2" by (simp add: close_kept_def)
      ultimately have "close_kept ?s2 s'" using Cons.IH by blast
      with k2 show ?thesis by (rule close_kept_trans)
    next
      case False
      with \<open>\<not> (err \<noteq> GE_NOERR \<or> fst r \<ge> read_data_len s1)\<close> Cons.prems u k2
      show ?thesis by (auto simp: Let_def)
    qed
  qed
qed

lemma fd_deliver_read_data_close_kept:
  "closing s \<Longrightarrow> fd_deliver_read_data rs err s = Inr s' \<Longrightarrow> close_kept s s'"
  by (auto simp: fd_deliver_read_data_def close_kept_def dest: deliver_retry_close_kept
        split: if_splits)

lemma deferred_retry_close_kept:
  "closing s \<Longrightarrow> deferred_retry scripts s = Inr s' \<Longrightarrow> close_kept s s'"
proof (induction scripts arbitrary: s)
  case Nil
  then show ?case by (auto simp: close_kept_def split: if_splits)
next
  case (Cons sc rest)
  show ?case
  proof (cases "deferred_read s")
    case False
    with Cons.prems show ?thesis by (auto simp: close_kept_def)
  next
    case True
    let ?s0 = "fd_unlock (s\<lparr>deferred_read := False\<rparr>)"
    from True Cons.prems obtain s1 where
      d: "fd_deliver_read_data sc GE_NOERR ?s0 = Inr s1"
      and r: "deferred_retry rest ((fd_lock s1)\<lparr>in_read := False\<rparr>) = Inr s'"
      by (auto split: sum.splits)
    from Cons.prems(1) have k0: "close_kept s ?s0"
      by (simp add: close_kept_def closing_def cfields_def close_dones_def prim_defs)
    then have "closing ?s0" by (simp add: close_kept_def)
    from fd_deliver_read_data_close_kept [OF this d] have k1: "close_kept ?s0 s1" .
    then have k2: "close_kept ?s0 ((fd_lock s1)\<lparr>in_read := False\<rparr>)"
      by (simp add: close_kept_def closing_def cfields_def close_dones_def prim_defs)
    then have "closing ((fd_lock s1)\<lparr>in_read := False\<rparr>)" by (simp add: close_kept_def)
    from Cons.IH [OF this r] have k3: "close_kept ((fd_lock s1)\<lparr>in_read := False\<rparr>) s'" .
    from k0 k2 k3 show ?thesis by (blast intro: close_kept_trans)
  qed
qed

lemma fd_deref_and_unlock_close_kept:
  "closing s \<Longrightarrow> fd_deref_and_unlock s = Inr s' \<Longrightarrow> close_kept s s'"
  by (auto simp: fd_deref_and_unlock_def close_kept_def closing_def cfields_def
        close_dones_def prim_defs Let_def split: if_splits)

lemma fd_finish_close_once:
  assumes "close_done s = Some d" and "fd_finish_close calls s = Inr s'"
  shows "close_dones (trace s') =
           close_dones (trace s) @ [CbCloseDone d (cb_data s) (close_data s)]
         \<and> closing s' \<and> close_done s' = None
         \<and> deferred_op_pending s' = deferred_op_pending s
         \<and> deferred_close s' = deferred_close s"
proof -
  let ?s2 = "fd_unlock (s\<lparr>state := FD_CLOSED, close_done := None\<rparr>)"
  let ?e = "CbCloseDone d (cb_data s) (close_data s)"
  from assms obtain s3 where u: "upcall ?e calls ?s2 = Inr s3" and s': "s' = fd_lock s3"
    by (auto simp: fd_finish_close_def Let_def and_then_Inr prim_defs)
  from u have dc: "do_calls calls (log ?e ?s2) = Inr s3"
    by (auto simp: upcall_def and_then_Inr split: if_splits)
  have "closing (log ?e ?s2)" by (simp add: closing_def prim_defs)
  from do_calls_close_kept [OF this dc] have "close_kept (log ?e ?s2) s3" .
  then show ?thesis using s'
    by (simp add: close_kept_def closing_def cfields_def close_dones_def prim_defs)
qed


lemma fd_finish_cleared_close:
  assumes c: "closing s" and cd: "close_done s = Some d"
    and f: "fd_finish_cleared oc cc s = Inr s'"
  shows "closing s' \<and> cb_data s' = cb_data s \<and> close_data s' = close_data s
         \<and> deferred_op_pending s' = deferred_op_pending s
         \<and> (if deferred_op_pending s
             then close_dones (trace s') = close_dones (trace s) \<and> deferred_close s'
                  \<and> close_done s' = Some d
             else close_dones (trace s') =
                    close_dones (trace s) @ [CbCloseDone d (cb_data s) (close_data s)]
                  \<and> close_done s' = None \<and> deferred_close s' = deferred_close s)"
proof -
  let ?s1 = "(os_close (fd_lock_and_ref s))\<lparr>fd := -1\<rparr>"
  from c have k1: "close_kept s ?s1"
    by (simp add: close_kept_def closing_def cfields_def close_dones_def prim_defs)
  from f obtain s4 where
    o: "(case open_done ?s1 of
           Some od \<Rightarrow>
             (let s2 = fd_unlock (?s1\<lparr>open_done := None, state := FD_CLOSED\<rparr>) in
              and_then
                (upcall (CbOpenDone od (open_data s2) (open_err s2) (open_data s2)) oc s2)
                (\<lambda>s3. Inr (fd_lock s3)))
         | None \<Rightarrow> Inr ?s1) = Inr s4"
    and r: "and_then
             (if deferred_op_pending s4 then Inr (s4\<lparr>deferred_close := True\<rparr>)
              else fd_finish_close cc s4)
             fd_deref_and_unlock = Inr s'"
    unfolding fd_finish_cleared_def Let_def and_then_Inr by blast
  have k4: "close_kept s s4"
  proof (cases "open_done ?s1")
    case None
    with o k1 show ?thesis by simp
  next
    case (Some od)
    let ?s2 = "fd_unlock (?s1\<lparr>open_done := None, state := FD_CLOSED\<rparr>)"
    from Some o obtain s3 where
      u: "upcall (CbOpenDone od (open_data ?s2) (open_err ?s2) (open_data ?s2)) oc ?s2 = Inr s3"
      and s4: "s4 = fd_lock s3"
      by (auto simp: Let_def and_then_Inr)
    from c have k2: "close_kept s ?s2"
      by (simp add: close_kept_def closing_def cfields_def close_dones_def prim_defs)
    then have "closing ?s2" by (simp add: close_kept_def)
    from upcall_close_kept [OF this _ u] have "close_kept ?s2 s3" by simp
    then have "close_kept ?s2 s4" using s4
      by (simp add: close_kept_def closing_def cfields_def close_dones_def prim_defs)
    with k2 show ?thesis by (rule close_kept_trans)
  qed
  show ?thesis
  proof (cases "deferred_op_pending s")
    case True
    with k4 have p4: "deferred_op_pending s4" by (simp add: close_kept_def cfields_def)
    from k4 have "closing (s4\<lparr>deferred_close := True\<rparr>)"
      by (simp add: close_kept_def closing_def)
    moreover from r p4 have "fd_deref_and_unlock (s4\<lparr>deferred_close := True\<rparr>) = Inr s'"
      by (simp add: and_then_Inr)
    ultimately have "close_kept (s4\<lparr>deferred_close := True\<rparr>) s'"
      by (rule fd_deref_and_unlock_close_kept)
    with k4 cd True show ?thesis
      by (simp add: close_kept_def cfields_def close_dones_def)
  next
    case False
    with k4 have p4: "\<not> deferred_op_pending s4" by (simp add: close_kept_def cfields_def)
    from r p4 obtain s5 where
      fc: "fd_finish_close cc s4 = Inr s5" and de: "fd_deref_and_unlock s5 = Inr s'"
      by (auto simp: and_then_Inr)
    from k4 cd have "close_done s4 = Some d" by (simp add: close_kept_def cfields_def)
    from fd_finish_close_once [OF this fc] have
      a: "close_dones (trace s5) =
            close_dones (trace s4) @ [CbCloseDone d (cb_data s4) (close_data s4)]"
      and b: "closing s5" "close_done s5 = None"
        "deferred_op_pending s5 = deferred_op_pending s4" "deferred_close s5 = deferred_close s4"
      by simp_all
    have cbd: "cb_data s5 = cb_data s4 \<and> close_data s5 = close_data s4"
      using fc \<open>close_done s4 = Some d\<close>
    proof -
      let ?s2 = "fd_unlock (s4\<lparr>state := FD_CLOSED, close_done := None\<rparr>)"
      let ?e = "CbCloseDone d (cb_data s4) (close_data s4)"
      from fc \<open>close_done s4 = Some d\<close> obtain s3 where
        u: "upcall ?e cc ?s2 = Inr s3" and s5: "s5 = fd_lock s3"
        by (auto simp: fd_finish_close_def Let_def and_then_Inr prim_defs)
      from u have dc: "do_calls cc (log ?e ?s2) = Inr s3"
        by (auto simp: upcall_def and_then_Inr split: if_splits)
      have "closing (log ?e ?s2)" by (simp add: closing_def prim_defs)
      from do_calls_close_kept [OF this dc] s5 show ?thesis
        by (simp add: close_kept_def cfields_def prim_defs)
    qed
    from fd_deref_and_unlock_close_kept [OF b(1) de] have k6: "close_kept s5 s'" .
    from k4 k6 a b cbd False show ?thesis
      by (simp add: close_kept_def cfields_def)
  qed
qed

lemma fd_deferred_op_close:
  assumes cd: "close_done s = Some d" and dc: "deferred_close s"
    and f: "fd_deferred_op cc scripts s = Inr s'"
  shows "close_dones (trace s') =
           close_dones (trace s) @ [CbCloseDone d (cb_data s) (close_data s)]
         \<and> close_done s' = None \<and> \<not> deferred_close s'"
proof -
  let ?s0 = "(fd_lock s)\<lparr>deferred_close := False\<rparr>"
  from f dc obtain s1 s2 where
    fc: "fd_finish_close cc ?s0 = Inr s1"
    and dr: "deferred_retry scripts s1 = Inr s2"
    and de: "fd_deref_and_unlock
              (let s3 = s2\<lparr>deferred_op_pending := False\<rparr>
               in if state s3 = FD_OPEN
                  then os_set_write_handler (write_enabled s3)
                         (os_set_except_handler (read_enabled s3)
                           (os_set_read_handler (read_enabled s3) s3))
                  else s3) = Inr s'"
    by (auto simp: fd_deferred_op_def Let_def and_then_Inr prim_defs)
  from cd have "close_done ?s0 = Some d" by (simp add: prim_defs)
  from fd_finish_close_once [OF this fc] have
    a: "close_dones (trace s1) =
          close_dones (trace s) @ [CbCloseDone d (cb_data s) (close_data s)]"
    and b: "closing s1" "close_done s1 = None" "\<not> deferred_close s1"
    by (simp_all add: prim_defs close_dones_def)
  from deferred_retry_close_kept [OF b(1) dr] have k2: "close_kept s1 s2" .
  let ?s3 = "s2\<lparr>deferred_op_pending := False\<rparr>"
  from k2 have c3: "closing ?s3" by (simp add: close_kept_def closing_def)
  then have "state ?s3 \<noteq> FD_OPEN" by (simp add: closing_def)
  with de have "fd_deref_and_unlock ?s3 = Inr s'" by (simp add: Let_def)
  from fd_deref_and_unlock_close_kept [OF c3 this] have "close_kept ?s3 s'" .
  with k2 a b show ?thesis by (simp add: close_kept_def cfields_def)
qed

text \<open>
  C3, as the claim states it, fails: with no deferred operation pending, the
  close-done callback is called inside the cleared handler; no runner was queued.
\<close>

theorem close_done_counterexample:
  "fst (fd_close (Some 9) 3 ll_open) = GE_NOERR
   \<and> deliver (InCleared GE_NOERR 0 [] []) (snd (fd_close (Some 9) 3 ll_open)) =
       Inr (ll_open\<lparr>fd := -1, state := FD_CLOSED, close_data := 3,
              trace := [OsSetFdHandlers 5, EvLock, OsClearFdHandlers 5, EvUnlock,
                        EvLock, EvRef, OsClose 5, EvUnlock, CbCloseDone 9 0 3,
                        EvLock, EvDeref, EvUnlock]\<rparr>)"
  by (simp add: ll_open_def plain_ops_def run_defs api_defs prim_defs Let_def)

text \<open>
  C3, amended. An accepted close stores the done callback and asks for a cleared
  report. When \<^verbatim>\<open>fd_finish_cleared\<close> then runs and no deferred operation is pending, it
  calls the done callback itself, once, and clears it. When a deferred operation is
  pending, it calls nothing and sets \<^verbatim>\<open>deferred_close\<close>; the deferred runner then calls
  the done callback once and clears it.
\<close>

theorem close_done_called_once:
  "((state s0 = FD_OPEN \<or> state s0 = FD_IN_OPEN) \<longrightarrow>
      closing (snd (fd_close (Some d) cdata s0))
      \<and> close_done (snd (fd_close (Some d) cdata s0)) = Some d
      \<and> os_cleared_due (snd (fd_close (Some d) cdata s0))
      \<and> close_dones (trace (snd (fd_close (Some d) cdata s0))) = close_dones (trace s0))
   \<and> (closing s \<and> close_done s = Some d \<and> fd_finish_cleared oc cc s = Inr s' \<longrightarrow>
        (if deferred_op_pending s
         then close_dones (trace s') = close_dones (trace s) \<and> closing s'
              \<and> close_done s' = Some d \<and> deferred_close s'
              \<and> (\<forall>cc' scripts s''. fd_deferred_op cc' scripts s' = Inr s'' \<longrightarrow>
                    close_dones (trace s'') =
                      close_dones (trace s) @ [CbCloseDone d (cb_data s) (close_data s)]
                    \<and> close_done s'' = None \<and> \<not> deferred_close s'')
         else close_dones (trace s') =
                close_dones (trace s) @ [CbCloseDone d (cb_data s) (close_data s)]
              \<and> close_done s' = None \<and> deferred_close s' = deferred_close s))"
proof (intro conjI impI; (elim conjE)?)
  assume "state s0 = FD_OPEN \<or> state s0 = FD_IN_OPEN"
  then show "closing (snd (fd_close (Some d) cdata s0))"
    and "close_done (snd (fd_close (Some d) cdata s0)) = Some d"
    and "os_cleared_due (snd (fd_close (Some d) cdata s0))"
    and "close_dones (trace (snd (fd_close (Some d) cdata s0))) = close_dones (trace s0)"
    by (auto simp: api_defs prim_defs closing_def close_dones_def Let_def)
next
  assume c: "closing s" and cd: "close_done s = Some d"
    and f: "fd_finish_cleared oc cc s = Inr s'"
  note fc = fd_finish_cleared_close [OF c cd f]
  show "if deferred_op_pending s
         then close_dones (trace s') = close_dones (trace s) \<and> closing s'
              \<and> close_done s' = Some d \<and> deferred_close s'
              \<and> (\<forall>cc' scripts s''. fd_deferred_op cc' scripts s' = Inr s'' \<longrightarrow>
                    close_dones (trace s'') =
                      close_dones (trace s) @ [CbCloseDone d (cb_data s) (close_data s)]
                    \<and> close_done s'' = None \<and> \<not> deferred_close s'')
         else close_dones (trace s') =
                close_dones (trace s) @ [CbCloseDone d (cb_data s) (close_data s)]
              \<and> close_done s' = None \<and> deferred_close s' = deferred_close s"
  proof (cases "deferred_op_pending s")
    case False
    with fc show ?thesis by simp
  next
    case True
    with fc have a: "close_dones (trace s') = close_dones (trace s)" "closing s'"
      "close_done s' = Some d" "deferred_close s'" "cb_data s' = cb_data s"
      "close_data s' = close_data s" by simp_all
    have "\<forall>cc' scripts s''. fd_deferred_op cc' scripts s' = Inr s'' \<longrightarrow>
            close_dones (trace s'') =
              close_dones (trace s) @ [CbCloseDone d (cb_data s) (close_data s)]
            \<and> close_done s'' = None \<and> \<not> deferred_close s''"
      using fd_deferred_op_close [OF a(3) a(4)] a by simp
    with True a show ?thesis by simp
  qed
qed

lemma quiet_eval:
  "fd_finish_cleared [] [] ll_closing_quiet =
     Inr (ll_open\<lparr>fd := -1, state := FD_CLOSED, close_data := 3, os_cleared_due := True,
              trace := [OsSetFdHandlers 5, EvLock, OsClearFdHandlers 5, EvUnlock,
                        EvLock, EvRef, OsClose 5, EvUnlock, CbCloseDone 9 0 3,
                        EvLock, EvDeref, EvUnlock]\<rparr>)"
  by (simp add: ll_closing_quiet_def ll_open_def plain_ops_def run_defs api_defs prim_defs Let_def)

lemma pending_eval:
  "fd_finish_cleared [] [] ll_closing_pending =
     Inr (ll_closing_pending\<lparr>fd := -1, deferred_close := True,
            trace := trace ll_closing_pending @ [EvLock, EvRef, OsClose 5, EvDeref, EvUnlock]\<rparr>)"
  by (simp add: ll_closing_pending_def ll_buffered_def ll_open_def plain_ops_def run_defs
        api_defs prim_defs Let_def)

lemma pending_runner_eval:
  "fd_deferred_op [] [[(3, [])]]
     (ll_closing_pending\<lparr>fd := -1, deferred_close := True,
            trace := trace ll_closing_pending @ [EvLock, EvRef, OsClose 5, EvDeref, EvUnlock]\<rparr>)
   = Inr (ll_closing_pending\<lparr>refcount := 1, fd := -1, state := FD_CLOSED, close_done := None,
            read_data_len := 0, in_read := False, deferred_op_pending := False,
            deferred_read := False,
            trace := trace ll_closing_pending @
              [EvLock, EvRef, OsClose 5, EvDeref, EvUnlock, EvLock, EvUnlock,
               CbCloseDone 9 0 3, EvLock, EvUnlock, CbRead 0 GE_NOERR [1, 2, 3] None 3,
               EvLock, EvDeref, EvUnlock]\<rparr>)"
  by (simp add: ll_closing_pending_def ll_buffered_def ll_open_def plain_ops_def run_defs
        api_defs prim_defs Let_def)


lemma closing_examples:
  "closing ll_closing_quiet" "close_done ll_closing_quiet = Some 9"
  "\<not> deferred_op_pending ll_closing_quiet" "cb_data ll_closing_quiet = 0"
  "close_data ll_closing_quiet = 3" "close_dones (trace ll_closing_quiet) = []"
  "closing ll_closing_pending" "close_done ll_closing_pending = Some 9"
  "deferred_op_pending ll_closing_pending" "cb_data ll_closing_pending = 0"
  "close_data ll_closing_pending = 3" "close_dones (trace ll_closing_pending) = []"
  by (simp_all add: ll_closing_quiet_def ll_closing_pending_def ll_buffered_def ll_open_def
        plain_ops_def closing_def close_dones_def api_defs prim_defs Let_def)

theorem close_done_witness:
  "closing ll_closing_quiet \<and> close_done ll_closing_quiet = Some 9
   \<and> \<not> deferred_op_pending ll_closing_quiet
   \<and> (\<exists>s'. fd_finish_cleared [] [] ll_closing_quiet = Inr s'
          \<and> close_dones (trace s') = [CbCloseDone 9 0 3] \<and> close_done s' = None)
   \<and> closing ll_closing_pending \<and> close_done ll_closing_pending = Some 9
   \<and> deferred_op_pending ll_closing_pending
   \<and> (\<exists>s'. fd_finish_cleared [] [] ll_closing_pending = Inr s'
          \<and> close_dones (trace s') = [] \<and> deferred_close s'
          \<and> (\<exists>s''. fd_deferred_op [] [[(3, [])]] s' = Inr s''
                \<and> close_dones (trace s'') = [CbCloseDone 9 0 3] \<and> close_done s'' = None))"
proof -
  note ex = closing_examples
  from close_done_called_once [of _ 9 _ ll_closing_quiet "[]" "[]", THEN conjunct2]
    ex(1-6) quiet_eval
  have q: "\<exists>s'. fd_finish_cleared [] [] ll_closing_quiet = Inr s'
          \<and> close_dones (trace s') = [CbCloseDone 9 0 3] \<and> close_done s' = None"
    by (auto simp: close_dones_def)
  from close_done_called_once [of _ 9 _ ll_closing_pending "[]" "[]", THEN conjunct2]
    ex(7-12) pending_eval pending_runner_eval
  have p: "\<exists>s'. fd_finish_cleared [] [] ll_closing_pending = Inr s'
          \<and> close_dones (trace s') = [] \<and> deferred_close s'
          \<and> (\<exists>s''. fd_deferred_op [] [[(3, [])]] s' = Inr s''
                \<and> close_dones (trace s'') = [CbCloseDone 9 0 3] \<and> close_done s'' = None)"
    by (auto simp: close_dones_def)
  from q p ex show ?thesis by simp
qed

subsection \<open>The invariant of a run\<close>

text \<open>What each primitive does to each field.\<close>

lemma prim_sel:
  "refcount (log e s) = refcount s"
  "cb_data (log e s) = cb_data s"
  "fd (log e s) = fd s"
  "state (log e s) = state s"
  "read_enabled (log e s) = read_enabled s"
  "write_enabled (log e s) = write_enabled s"
  "write_only (log e s) = write_only s"
  "ops (log e s) = ops s"
  "open_done (log e s) = open_done s"
  "open_data (log e s) = open_data s"
  "open_err (log e s) = open_err s"
  "close_done (log e s) = close_done s"
  "close_data (log e s) = close_data s"
  "read_data (log e s) = read_data s"
  "read_data_size (log e s) = read_data_size s"
  "read_data_len (log e s) = read_data_len s"
  "read_data_pos (log e s) = read_data_pos s"
  "auxdata (log e s) = auxdata s"
  "in_read (log e s) = in_read s"
  "deferred_op_pending (log e s) = deferred_op_pending s"
  "deferred_read (log e s) = deferred_read s"
  "deferred_close (log e s) = deferred_close s"
  "locked (log e s) = locked s"
  "freed (log e s) = freed s"
  "os_read_on (log e s) = os_read_on s"
  "os_write_on (log e s) = os_write_on s"
  "os_except_on (log e s) = os_except_on s"
  "os_cleared_due (log e s) = os_cleared_due s"
  "os_runner_due (log e s) = os_runner_due s"
  "os_timer_due (log e s) = os_timer_due s"
  "trace (log e s) = trace s @ [e]"
  "refcount (fd_lock s) = refcount s"
  "cb_data (fd_lock s) = cb_data s"
  "fd (fd_lock s) = fd s"
  "state (fd_lock s) = state s"
  "read_enabled (fd_lock s) = read_enabled s"
  "write_enabled (fd_lock s) = write_enabled s"
  "write_only (fd_lock s) = write_only s"
  "ops (fd_lock s) = ops s"
  "open_done (fd_lock s) = open_done s"
  "open_data (fd_lock s) = open_data s"
  "open_err (fd_lock s) = open_err s"
  "close_done (fd_lock s) = close_done s"
  "close_data (fd_lock s) = close_data s"
  "read_data (fd_lock s) = read_data s"
  "read_data_size (fd_lock s) = read_data_size s"
  "read_data_len (fd_lock s) = read_data_len s"
  "read_data_pos (fd_lock s) = read_data_pos s"
  "auxdata (fd_lock s) = auxdata s"
  "in_read (fd_lock s) = in_read s"
  "deferred_op_pending (fd_lock s) = deferred_op_pending s"
  "deferred_read (fd_lock s) = deferred_read s"
  "deferred_close (fd_lock s) = deferred_close s"
  "locked (fd_lock s) = True"
  "freed (fd_lock s) = freed s"
  "os_read_on (fd_lock s) = os_read_on s"
  "os_write_on (fd_lock s) = os_write_on s"
  "os_except_on (fd_lock s) = os_except_on s"
  "os_cleared_due (fd_lock s) = os_cleared_due s"
  "os_runner_due (fd_lock s) = os_runner_due s"
  "os_timer_due (fd_lock s) = os_timer_due s"
  "trace (fd_lock s) = trace s @ [EvLock]"
  "refcount (fd_unlock s) = refcount s"
  "cb_data (fd_unlock s) = cb_data s"
  "fd (fd_unlock s) = fd s"
  "state (fd_unlock s) = state s"
  "read_enabled (fd_unlock s) = read_enabled s"
  "write_enabled (fd_unlock s) = write_enabled s"
  "write_only (fd_unlock s) = write_only s"
  "ops (fd_unlock s) = ops s"
  "open_done (fd_unlock s) = open_done s"
  "open_data (fd_unlock s) = open_data s"
  "open_err (fd_unlock s) = open_err s"
  "close_done (fd_unlock s) = close_done s"
  "close_data (fd_unlock s) = close_data s"
  "read_data (fd_unlock s) = read_data s"
  "read_data_size (fd_unlock s) = read_data_size s"
  "read_data_len (fd_unlock s) = read_data_len s"
  "read_data_pos (fd_unlock s) = read_data_pos s"
  "auxdata (fd_unlock s) = auxdata s"
  "in_read (fd_unlock s) = in_read s"
  "deferred_op_pending (fd_unlock s) = deferred_op_pending s"
  "deferred_read (fd_unlock s) = deferred_read s"
  "deferred_close (fd_unlock s) = deferred_close s"
  "locked (fd_unlock s) = False"
  "freed (fd_unlock s) = freed s"
  "os_read_on (fd_unlock s) = os_read_on s"
  "os_write_on (fd_unlock s) = os_write_on s"
  "os_except_on (fd_unlock s) = os_except_on s"
  "os_cleared_due (fd_unlock s) = os_cleared_due s"
  "os_runner_due (fd_unlock s) = os_runner_due s"
  "os_timer_due (fd_unlock s) = os_timer_due s"
  "trace (fd_unlock s) = trace s @ [EvUnlock]"
  "refcount (fd_ref s) = refcount s + 1"
  "cb_data (fd_ref s) = cb_data s"
  "fd (fd_ref s) = fd s"
  "state (fd_ref s) = state s"
  "read_enabled (fd_ref s) = read_enabled s"
  "write_enabled (fd_ref s) = write_enabled s"
  "write_only (fd_ref s) = write_only s"
  "ops (fd_ref s) = ops s"
  "open_done (fd_ref s) = open_done s"
  "open_data (fd_ref s) = open_data s"
  "open_err (fd_ref s) = open_err s"
  "close_done (fd_ref s) = close_done s"
  "close_data (fd_ref s) = close_data s"
  "read_data (fd_ref s) = read_data s"
  "read_data_size (fd_ref s) = read_data_size s"
  "read_data_len (fd_ref s) = read_data_len s"
  "read_data_pos (fd_ref s) = read_data_pos s"
  "auxdata (fd_ref s) = auxdata s"
  "in_read (fd_ref s) = in_read s"
  "deferred_op_pending (fd_ref s) = deferred_op_pending s"
  "deferred_read (fd_ref s) = deferred_read s"
  "deferred_close (fd_ref s) = deferred_close s"
  "locked (fd_ref s) = locked s"
  "freed (fd_ref s) = freed s"
  "os_read_on (fd_ref s) = os_read_on s"
  "os_write_on (fd_ref s) = os_write_on s"
  "os_except_on (fd_ref s) = os_except_on s"
  "os_cleared_due (fd_ref s) = os_cleared_due s"
  "os_runner_due (fd_ref s) = os_runner_due s"
  "os_timer_due (fd_ref s) = os_timer_due s"
  "trace (fd_ref s) = trace s @ [EvRef]"
  "refcount (fd_lock_and_ref s) = refcount s + 1"
  "cb_data (fd_lock_and_ref s) = cb_data s"
  "fd (fd_lock_and_ref s) = fd s"
  "state (fd_lock_and_ref s) = state s"
  "read_enabled (fd_lock_and_ref s) = read_enabled s"
  "write_enabled (fd_lock_and_ref s) = write_enabled s"
  "write_only (fd_lock_and_ref s) = write_only s"
  "ops (fd_lock_and_ref s) = ops s"
  "open_done (fd_lock_and_ref s) = open_done s"
  "open_data (fd_lock_and_ref s) = open_data s"
  "open_err (fd_lock_and_ref s) = open_err s"
  "close_done (fd_lock_and_ref s) = close_done s"
  "close_data (fd_lock_and_ref s) = close_data s"
  "read_data (fd_lock_and_ref s) = read_data s"
  "read_data_size (fd_lock_and_ref s) = read_data_size s"
  "read_data_len (fd_lock_and_ref s) = read_data_len s"
  "read_data_pos (fd_lock_and_ref s) = read_data_pos s"
  "auxdata (fd_lock_and_ref s) = auxdata s"
  "in_read (fd_lock_and_ref s) = in_read s"
  "deferred_op_pending (fd_lock_and_ref s) = deferred_op_pending s"
  "deferred_read (fd_lock_and_ref s) = deferred_read s"
  "deferred_close (fd_lock_and_ref s) = deferred_close s"
  "locked (fd_lock_and_ref s) = True"
  "freed (fd_lock_and_ref s) = freed s"
  "os_read_on (fd_lock_and_ref s) = os_read_on s"
  "os_write_on (fd_lock_and_ref s) = os_write_on s"
  "os_except_on (fd_lock_and_ref s) = os_except_on s"
  "os_cleared_due (fd_lock_and_ref s) = os_cleared_due s"
  "os_runner_due (fd_lock_and_ref s) = os_runner_due s"
  "os_timer_due (fd_lock_and_ref s) = os_timer_due s"
  "trace (fd_lock_and_ref s) = trace s @ [EvLock, EvRef]"
  "refcount (os_set_read_handler b s) = refcount s"
  "cb_data (os_set_read_handler b s) = cb_data s"
  "fd (os_set_read_handler b s) = fd s"
  "state (os_set_read_handler b s) = state s"
  "read_enabled (os_set_read_handler b s) = read_enabled s"
  "write_enabled (os_set_read_handler b s) = write_enabled s"
  "write_only (os_set_read_handler b s) = write_only s"
  "ops (os_set_read_handler b s) = ops s"
  "open_done (os_set_read_handler b s) = open_done s"
  "open_data (os_set_read_handler b s) = open_data s"
  "open_err (os_set_read_handler b s) = open_err s"
  "close_done (os_set_read_handler b s) = close_done s"
  "close_data (os_set_read_handler b s) = close_data s"
  "read_data (os_set_read_handler b s) = read_data s"
  "read_data_size (os_set_read_handler b s) = read_data_size s"
  "read_data_len (os_set_read_handler b s) = read_data_len s"
  "read_data_pos (os_set_read_handler b s) = read_data_pos s"
  "auxdata (os_set_read_handler b s) = auxdata s"
  "in_read (os_set_read_handler b s) = in_read s"
  "deferred_op_pending (os_set_read_handler b s) = deferred_op_pending s"
  "deferred_read (os_set_read_handler b s) = deferred_read s"
  "deferred_close (os_set_read_handler b s) = deferred_close s"
  "locked (os_set_read_handler b s) = locked s"
  "freed (os_set_read_handler b s) = freed s"
  "os_read_on (os_set_read_handler b s) = b"
  "os_write_on (os_set_read_handler b s) = os_write_on s"
  "os_except_on (os_set_read_handler b s) = os_except_on s"
  "os_cleared_due (os_set_read_handler b s) = os_cleared_due s"
  "os_runner_due (os_set_read_handler b s) = os_runner_due s"
  "os_timer_due (os_set_read_handler b s) = os_timer_due s"
  "trace (os_set_read_handler b s) = trace s @ [OsSetReadHandler (fd s) b]"
  "refcount (os_set_write_handler b s) = refcount s"
  "cb_data (os_set_write_handler b s) = cb_data s"
  "fd (os_set_write_handler b s) = fd s"
  "state (os_set_write_handler b s) = state s"
  "read_enabled (os_set_write_handler b s) = read_enabled s"
  "write_enabled (os_set_write_handler b s) = write_enabled s"
  "write_only (os_set_write_handler b s) = write_only s"
  "ops (os_set_write_handler b s) = ops s"
  "open_done (os_set_write_handler b s) = open_done s"
  "open_data (os_set_write_handler b s) = open_data s"
  "open_err (os_set_write_handler b s) = open_err s"
  "close_done (os_set_write_handler b s) = close_done s"
  "close_data (os_set_write_handler b s) = close_data s"
  "read_data (os_set_write_handler b s) = read_data s"
  "read_data_size (os_set_write_handler b s) = read_data_size s"
  "read_data_len (os_set_write_handler b s) = read_data_len s"
  "read_data_pos (os_set_write_handler b s) = read_data_pos s"
  "auxdata (os_set_write_handler b s) = auxdata s"
  "in_read (os_set_write_handler b s) = in_read s"
  "deferred_op_pending (os_set_write_handler b s) = deferred_op_pending s"
  "deferred_read (os_set_write_handler b s) = deferred_read s"
  "deferred_close (os_set_write_handler b s) = deferred_close s"
  "locked (os_set_write_handler b s) = locked s"
  "freed (os_set_write_handler b s) = freed s"
  "os_read_on (os_set_write_handler b s) = os_read_on s"
  "os_write_on (os_set_write_handler b s) = b"
  "os_except_on (os_set_write_handler b s) = os_except_on s"
  "os_cleared_due (os_set_write_handler b s) = os_cleared_due s"
  "os_runner_due (os_set_write_handler b s) = os_runner_due s"
  "os_timer_due (os_set_write_handler b s) = os_timer_due s"
  "trace (os_set_write_handler b s) = trace s @ [OsSetWriteHandler (fd s) b]"
  "refcount (os_set_except_handler b s) = refcount s"
  "cb_data (os_set_except_handler b s) = cb_data s"
  "fd (os_set_except_handler b s) = fd s"
  "state (os_set_except_handler b s) = state s"
  "read_enabled (os_set_except_handler b s) = read_enabled s"
  "write_enabled (os_set_except_handler b s) = write_enabled s"
  "write_only (os_set_except_handler b s) = write_only s"
  "ops (os_set_except_handler b s) = ops s"
  "open_done (os_set_except_handler b s) = open_done s"
  "open_data (os_set_except_handler b s) = open_data s"
  "open_err (os_set_except_handler b s) = open_err s"
  "close_done (os_set_except_handler b s) = close_done s"
  "close_data (os_set_except_handler b s) = close_data s"
  "read_data (os_set_except_handler b s) = read_data s"
  "read_data_size (os_set_except_handler b s) = read_data_size s"
  "read_data_len (os_set_except_handler b s) = read_data_len s"
  "read_data_pos (os_set_except_handler b s) = read_data_pos s"
  "auxdata (os_set_except_handler b s) = auxdata s"
  "in_read (os_set_except_handler b s) = in_read s"
  "deferred_op_pending (os_set_except_handler b s) = deferred_op_pending s"
  "deferred_read (os_set_except_handler b s) = deferred_read s"
  "deferred_close (os_set_except_handler b s) = deferred_close s"
  "locked (os_set_except_handler b s) = locked s"
  "freed (os_set_except_handler b s) = freed s"
  "os_read_on (os_set_except_handler b s) = os_read_on s"
  "os_write_on (os_set_except_handler b s) = os_write_on s"
  "os_except_on (os_set_except_handler b s) = b"
  "os_cleared_due (os_set_except_handler b s) = os_cleared_due s"
  "os_runner_due (os_set_except_handler b s) = os_runner_due s"
  "os_timer_due (os_set_except_handler b s) = os_timer_due s"
  "trace (os_set_except_handler b s) = trace s @ [OsSetExceptHandler (fd s) b]"
  "refcount (os_clear_fd_handlers s) = refcount s"
  "cb_data (os_clear_fd_handlers s) = cb_data s"
  "fd (os_clear_fd_handlers s) = fd s"
  "state (os_clear_fd_handlers s) = state s"
  "read_enabled (os_clear_fd_handlers s) = read_enabled s"
  "write_enabled (os_clear_fd_handlers s) = write_enabled s"
  "write_only (os_clear_fd_handlers s) = write_only s"
  "ops (os_clear_fd_handlers s) = ops s"
  "open_done (os_clear_fd_handlers s) = open_done s"
  "open_data (os_clear_fd_handlers s) = open_data s"
  "open_err (os_clear_fd_handlers s) = open_err s"
  "close_done (os_clear_fd_handlers s) = close_done s"
  "close_data (os_clear_fd_handlers s) = close_data s"
  "read_data (os_clear_fd_handlers s) = read_data s"
  "read_data_size (os_clear_fd_handlers s) = read_data_size s"
  "read_data_len (os_clear_fd_handlers s) = read_data_len s"
  "read_data_pos (os_clear_fd_handlers s) = read_data_pos s"
  "auxdata (os_clear_fd_handlers s) = auxdata s"
  "in_read (os_clear_fd_handlers s) = in_read s"
  "deferred_op_pending (os_clear_fd_handlers s) = deferred_op_pending s"
  "deferred_read (os_clear_fd_handlers s) = deferred_read s"
  "deferred_close (os_clear_fd_handlers s) = deferred_close s"
  "locked (os_clear_fd_handlers s) = locked s"
  "freed (os_clear_fd_handlers s) = freed s"
  "os_read_on (os_clear_fd_handlers s) = False"
  "os_write_on (os_clear_fd_handlers s) = False"
  "os_except_on (os_clear_fd_handlers s) = False"
  "os_cleared_due (os_clear_fd_handlers s) = True"
  "os_runner_due (os_clear_fd_handlers s) = os_runner_due s"
  "os_timer_due (os_clear_fd_handlers s) = os_timer_due s"
  "trace (os_clear_fd_handlers s) = trace s @ [OsClearFdHandlers (fd s)]"
  "refcount (os_clear_fd_handlers_norpt s) = refcount s"
  "cb_data (os_clear_fd_handlers_norpt s) = cb_data s"
  "fd (os_clear_fd_handlers_norpt s) = fd s"
  "state (os_clear_fd_handlers_norpt s) = state s"
  "read_enabled (os_clear_fd_handlers_norpt s) = read_enabled s"
  "write_enabled (os_clear_fd_handlers_norpt s) = write_enabled s"
  "write_only (os_clear_fd_handlers_norpt s) = write_only s"
  "ops (os_clear_fd_handlers_norpt s) = ops s"
  "open_done (os_clear_fd_handlers_norpt s) = open_done s"
  "open_data (os_clear_fd_handlers_norpt s) = open_data s"
  "open_err (os_clear_fd_handlers_norpt s) = open_err s"
  "close_done (os_clear_fd_handlers_norpt s) = close_done s"
  "close_data (os_clear_fd_handlers_norpt s) = close_data s"
  "read_data (os_clear_fd_handlers_norpt s) = read_data s"
  "read_data_size (os_clear_fd_handlers_norpt s) = read_data_size s"
  "read_data_len (os_clear_fd_handlers_norpt s) = read_data_len s"
  "read_data_pos (os_clear_fd_handlers_norpt s) = read_data_pos s"
  "auxdata (os_clear_fd_handlers_norpt s) = auxdata s"
  "in_read (os_clear_fd_handlers_norpt s) = in_read s"
  "deferred_op_pending (os_clear_fd_handlers_norpt s) = deferred_op_pending s"
  "deferred_read (os_clear_fd_handlers_norpt s) = deferred_read s"
  "deferred_close (os_clear_fd_handlers_norpt s) = deferred_close s"
  "locked (os_clear_fd_handlers_norpt s) = locked s"
  "freed (os_clear_fd_handlers_norpt s) = freed s"
  "os_read_on (os_clear_fd_handlers_norpt s) = False"
  "os_write_on (os_clear_fd_handlers_norpt s) = False"
  "os_except_on (os_clear_fd_handlers_norpt s) = False"
  "os_cleared_due (os_clear_fd_handlers_norpt s) = os_cleared_due s"
  "os_runner_due (os_clear_fd_handlers_norpt s) = os_runner_due s"
  "os_timer_due (os_clear_fd_handlers_norpt s) = os_timer_due s"
  "trace (os_clear_fd_handlers_norpt s) = trace s @ [OsClearFdHandlersNorpt (fd s)]"
  "refcount (os_close s) = refcount s"
  "cb_data (os_close s) = cb_data s"
  "fd (os_close s) = fd s"
  "state (os_close s) = state s"
  "read_enabled (os_close s) = read_enabled s"
  "write_enabled (os_close s) = write_enabled s"
  "write_only (os_close s) = write_only s"
  "ops (os_close s) = ops s"
  "open_done (os_close s) = open_done s"
  "open_data (os_close s) = open_data s"
  "open_err (os_close s) = open_err s"
  "close_done (os_close s) = close_done s"
  "close_data (os_close s) = close_data s"
  "read_data (os_close s) = read_data s"
  "read_data_size (os_close s) = read_data_size s"
  "read_data_len (os_close s) = read_data_len s"
  "read_data_pos (os_close s) = read_data_pos s"
  "auxdata (os_close s) = auxdata s"
  "in_read (os_close s) = in_read s"
  "deferred_op_pending (os_close s) = deferred_op_pending s"
  "deferred_read (os_close s) = deferred_read s"
  "deferred_close (os_close s) = deferred_close s"
  "locked (os_close s) = locked s"
  "freed (os_close s) = freed s"
  "os_read_on (os_close s) = os_read_on s"
  "os_write_on (os_close s) = os_write_on s"
  "os_except_on (os_close s) = os_except_on s"
  "os_cleared_due (os_close s) = os_cleared_due s"
  "os_runner_due (os_close s) = os_runner_due s"
  "os_timer_due (os_close s) = os_timer_due s"
  "trace (os_close s) = trace s @ [OsClose (fd s)]"
  "refcount (os_run s) = refcount s"
  "cb_data (os_run s) = cb_data s"
  "fd (os_run s) = fd s"
  "state (os_run s) = state s"
  "read_enabled (os_run s) = read_enabled s"
  "write_enabled (os_run s) = write_enabled s"
  "write_only (os_run s) = write_only s"
  "ops (os_run s) = ops s"
  "open_done (os_run s) = open_done s"
  "open_data (os_run s) = open_data s"
  "open_err (os_run s) = open_err s"
  "close_done (os_run s) = close_done s"
  "close_data (os_run s) = close_data s"
  "read_data (os_run s) = read_data s"
  "read_data_size (os_run s) = read_data_size s"
  "read_data_len (os_run s) = read_data_len s"
  "read_data_pos (os_run s) = read_data_pos s"
  "auxdata (os_run s) = auxdata s"
  "in_read (os_run s) = in_read s"
  "deferred_op_pending (os_run s) = deferred_op_pending s"
  "deferred_read (os_run s) = deferred_read s"
  "deferred_close (os_run s) = deferred_close s"
  "locked (os_run s) = locked s"
  "freed (os_run s) = freed s"
  "os_read_on (os_run s) = os_read_on s"
  "os_write_on (os_run s) = os_write_on s"
  "os_except_on (os_run s) = os_except_on s"
  "os_cleared_due (os_run s) = os_cleared_due s"
  "os_runner_due (os_run s) = True"
  "os_timer_due (os_run s) = os_timer_due s"
  "trace (os_run s) = trace s @ [OsRun]"
  "refcount (os_start_timer t s) = refcount s"
  "cb_data (os_start_timer t s) = cb_data s"
  "fd (os_start_timer t s) = fd s"
  "state (os_start_timer t s) = state s"
  "read_enabled (os_start_timer t s) = read_enabled s"
  "write_enabled (os_start_timer t s) = write_enabled s"
  "write_only (os_start_timer t s) = write_only s"
  "ops (os_start_timer t s) = ops s"
  "open_done (os_start_timer t s) = open_done s"
  "open_data (os_start_timer t s) = open_data s"
  "open_err (os_start_timer t s) = open_err s"
  "close_done (os_start_timer t s) = close_done s"
  "close_data (os_start_timer t s) = close_data s"
  "read_data (os_start_timer t s) = read_data s"
  "read_data_size (os_start_timer t s) = read_data_size s"
  "read_data_len (os_start_timer t s) = read_data_len s"
  "read_data_pos (os_start_timer t s) = read_data_pos s"
  "auxdata (os_start_timer t s) = auxdata s"
  "in_read (os_start_timer t s) = in_read s"
  "deferred_op_pending (os_start_timer t s) = deferred_op_pending s"
  "deferred_read (os_start_timer t s) = deferred_read s"
  "deferred_close (os_start_timer t s) = deferred_close s"
  "locked (os_start_timer t s) = locked s"
  "freed (os_start_timer t s) = freed s"
  "os_read_on (os_start_timer t s) = os_read_on s"
  "os_write_on (os_start_timer t s) = os_write_on s"
  "os_except_on (os_start_timer t s) = os_except_on s"
  "os_cleared_due (os_start_timer t s) = os_cleared_due s"
  "os_runner_due (os_start_timer t s) = os_runner_due s"
  "os_timer_due (os_start_timer t s) = True"
  "trace (os_start_timer t s) = trace s @ [OsStartTimer t]"
  "refcount (fd_finish_free s) = refcount s"
  "cb_data (fd_finish_free s) = cb_data s"
  "fd (fd_finish_free s) = fd s"
  "state (fd_finish_free s) = state s"
  "read_enabled (fd_finish_free s) = read_enabled s"
  "write_enabled (fd_finish_free s) = write_enabled s"
  "write_only (fd_finish_free s) = write_only s"
  "ops (fd_finish_free s) = ops s"
  "open_done (fd_finish_free s) = open_done s"
  "open_data (fd_finish_free s) = open_data s"
  "open_err (fd_finish_free s) = open_err s"
  "close_done (fd_finish_free s) = close_done s"
  "close_data (fd_finish_free s) = close_data s"
  "read_data (fd_finish_free s) = read_data s"
  "read_data_size (fd_finish_free s) = read_data_size s"
  "read_data_len (fd_finish_free s) = read_data_len s"
  "read_data_pos (fd_finish_free s) = read_data_pos s"
  "auxdata (fd_finish_free s) = auxdata s"
  "in_read (fd_finish_free s) = in_read s"
  "deferred_op_pending (fd_finish_free s) = deferred_op_pending s"
  "deferred_read (fd_finish_free s) = deferred_read s"
  "deferred_close (fd_finish_free s) = deferred_close s"
  "locked (fd_finish_free s) = locked s"
  "freed (fd_finish_free s) = True"
  "os_read_on (fd_finish_free s) = os_read_on s"
  "os_write_on (fd_finish_free s) = os_write_on s"
  "os_except_on (fd_finish_free s) = os_except_on s"
  "os_cleared_due (fd_finish_free s) = os_cleared_due s"
  "os_runner_due (fd_finish_free s) = os_runner_due s"
  "os_timer_due (fd_finish_free s) = os_timer_due s"
  "trace (fd_finish_free s) = trace s @ [EvFree]"
  by (simp_all add: prim_defs)

lemma offered_sel:
  "offered (log e s) = offered s"
  "offered (fd_lock s) = offered s"
  "offered (fd_unlock s) = offered s"
  "offered (fd_ref s) = offered s"
  "offered (fd_lock_and_ref s) = offered s"
  "offered (os_set_read_handler b s) = offered s"
  "offered (os_set_write_handler b s) = offered s"
  "offered (os_set_except_handler b s) = offered s"
  "offered (os_clear_fd_handlers s) = offered s"
  "offered (os_clear_fd_handlers_norpt s) = offered s"
  "offered (os_close s) = offered s"
  "offered (os_run s) = offered s"
  "offered (os_start_timer t s) = offered s"
  "offered (fd_finish_free s) = offered s"
  by (simp_all add: offered_def prim_sel)

text \<open>The invariant through the calls of the interface and through an up-call.\<close>

lemma mon_append:
  "mon wo (t @ u) a = (case mon wo t a of None \<Rightarrow> None | Some a' \<Rightarrow> mon wo u a')"
  by (induction t arbitrary: a) (auto split: option.splits)

lemma unat_inc32: "unat (r :: 32 word) \<le> 3 \<Longrightarrow> unat (r + 1) = Suc (unat r)"
  by (simp add: unat_word_ariths)

lemma inc32_nz: "unat (r :: 32 word) \<le> 3 \<Longrightarrow> (r + 1 = 0) = False"
  using unat_inc32 [of r] by (auto simp: unat_eq_0 [symmetric] simp del: unat_eq_0)

lemma unat_dec32: "r \<noteq> 0 \<Longrightarrow> unat (r - 1 :: 32 word) = unat r - 1"
  by (simp add: unat_minus_one)

lemmas rc_simps = unat_inc32 inc32_nz unat_dec32

lemmas inv_unf = idle_def held_def ended_def idleq_def endedq_def ll_inv_def invq_def rcb_def
  mon_append prim_sel offered_sel rc_simps

lemma ok_after_simps:
  "ok_after P (Inr x) = P x"
  "ok_after P (Inl e) = (e \<noteq> AssertFailed)"
  "ok_after P (and_then m f) = ok_after (\<lambda>x. ok_after P (f x)) m"
  by (simp_all add: ok_after_def and_then_def split: sum.splits)

lemma ok_afterD: "ok_after P m \<Longrightarrow> m = Inr x \<Longrightarrow> P x"
  by (simp add: ok_after_def)


lemma ok_after_mono: "ok_after Q m \<Longrightarrow> (\<And>x. Q x \<Longrightarrow> P x) \<Longrightarrow> ok_after P m"
  by (cases m) (simp_all add: ok_after_def)

lemmas inv_all = inv_unf offered_def

lemma rcb_mono: "rcb k s \<Longrightarrow> k \<le> k' \<Longrightarrow> k' \<le> 2 \<Longrightarrow> rcb k' s"
  by (auto simp: rcb_def)

lemma ended_mono: "ended wo k s \<Longrightarrow> k \<le> k' \<Longrightarrow> k' \<le> 2 \<Longrightarrow> ended wo k' s"
  by (auto simp: ended_def ll_inv_def invq_def intro: rcb_mono)

lemma endedq_mono: "endedq wo k q s \<Longrightarrow> k \<le> k' \<Longrightarrow> k' \<le> 2 \<Longrightarrow> endedq wo k' q s"
  by (auto simp: endedq_def invq_def intro: rcb_mono)

lemma held_mono: "held wo k s \<Longrightarrow> k \<le> k' \<Longrightarrow> k' \<le> 2 \<Longrightarrow> held wo k' s"
  by (auto simp: held_def ll_inv_def invq_def intro: rcb_mono)

lemma fd_deref_and_unlock_invq:
  "invq wo k q s \<Longrightarrow> locked s \<Longrightarrow> \<not> freed s \<Longrightarrow> ok_after (endedq wo (Suc 0) q) (fd_deref_and_unlock s)"
  by (auto simp: fd_deref_and_unlock_def Let_def inv_unf ok_after_simps unat_eq_0 [symmetric]
        simp del: unat_eq_0)

lemma fd_deref_and_unlock_ok:
  "held wo k s \<Longrightarrow> ok_after (ended wo (Suc 0)) (fd_deref_and_unlock s)"
proof -
  assume h: "held wo k s"
  then have "ok_after (endedq wo (Suc 0) (offered s)) (fd_deref_and_unlock s)"
    by (intro fd_deref_and_unlock_invq [where k = k]) (simp_all add: held_def ll_inv_def)
  moreover have "\<And>x. fd_deref_and_unlock s = Inr x \<Longrightarrow> rdbuf x = rdbuf s"
    by (auto simp: fd_deref_and_unlock_def Let_def rdbuf_def prim_sel split: if_splits)
  ultimately show ?thesis using h
    by (cases "fd_deref_and_unlock s")
       (auto simp: ok_after_def ended_def endedq_def held_def ll_inv_def offered_def rdbuf_def)
qed

lemmas fd_deref_and_unlock_wp = ok_after_mono [OF fd_deref_and_unlock_ok]

lemma api_invq:
  "idleq wo k q s \<Longrightarrow> idleq wo k q (snd (fd_close done cdata s))"
  "idleq wo k q s \<Longrightarrow> idleq wo k q (fd_set_read_callback_enable b s)"
  "idleq wo k q s \<Longrightarrow> idleq wo k q (fd_set_write_callback_enable b s)"
  "idleq wo k q s \<Longrightarrow> idleq wo k q (fd_disable s)"
  by (auto simp: api_defs Let_def inv_unf)

lemma do_call_invq:
  "idleq wo k q s \<Longrightarrow> ok_after (endedq wo k q) (do_call c s)"
proof (cases c)
  case CallFree
  assume i: "idleq wo k q s"
  then have "invq wo k q (fd_lock s)" "locked (fd_lock s)" "\<not> freed (fd_lock s)"
    and k: "1 \<le> k" "k \<le> 2"
    by (simp_all add: inv_unf)
  from fd_deref_and_unlock_invq [OF this(1-3)] k CallFree show ?thesis
    by (auto simp: fd_free_def intro: endedq_mono elim!: ok_after_mono)
qed (auto simp: api_invq [unfolded idleq_def] endedq_def idleq_def ok_after_simps)

lemma do_calls_invq:
  "idleq wo k q s \<Longrightarrow> ok_after (endedq wo k q) (do_calls cs s)"
proof (induction cs arbitrary: s)
  case Nil
  then show ?case by (simp add: idleq_def endedq_def ok_after_simps)
next
  case (Cons c cs)
  have "ok_after (\<lambda>x. ok_after (endedq wo k q) (do_calls cs x)) (do_call c s)"
  proof (rule ok_after_mono [OF do_call_invq [OF Cons.prems]])
    fix x assume e: "endedq wo k q x"
    show "ok_after (endedq wo k q) (do_calls cs x)"
    proof (cases "freed x")
      case False
      with e have "idleq wo k q x" by (simp add: idleq_def endedq_def)
      then show ?thesis by (rule Cons.IH)
    next
      case True
      with e show ?thesis by (cases cs) (simp_all add: ok_after_simps)
    qed
  qed
  with Cons.prems show ?case by (simp add: ok_after_simps idleq_def)
qed

lemma upcall_invq:
  assumes i: "idleq wo k q s"
    and m: "mon_step wo e (False, refcount s, False, q) = Some (False, refcount s, False, q')"
  shows "ok_after (idleq wo k q') (upcall e calls s)"
proof -
  from i m have "idleq wo k q' (log e s)" by (simp add: inv_unf)
  from do_calls_invq [OF this] show ?thesis
    unfolding upcall_def ok_after_simps
    by (rule ok_after_mono) (simp add: ok_after_simps idleq_def endedq_def)
qed

lemma inv_from_q:
  "idleq wo k q s \<Longrightarrow> offered s = q \<Longrightarrow> (read_data_len s = 0 \<longrightarrow> read_data_pos s = 0)
     \<Longrightarrow> idle wo k s"
  by (simp add: idle_def idleq_def ll_inv_def)

lemma plain_upcall_mon:
  "plain_upcall e \<Longrightarrow> r \<noteq> 0 \<Longrightarrow> mon_step wo e (False, r, False, q) = Some (False, r, False, q)"
  by (cases e) simp_all

lemma idle_live: "idle wo k s \<Longrightarrow> refcount s \<noteq> 0"
  by (auto simp: idle_def ll_inv_def invq_def rcb_def)

lemma upcall_ok:
  assumes i: "idle wo k s" and e: "plain_upcall e"
  shows "ok_after (idle wo k) (upcall e calls s)"
proof -
  from i have iq: "idleq wo k (offered s) s" by (simp add: idle_def idleq_def ll_inv_def)
  have "ok_after (\<lambda>x. idleq wo k (offered s) x \<and> upcall e calls s = Inr x) (upcall e calls s)"
    using upcall_invq [OF iq plain_upcall_mon [OF e idle_live [OF i]], of calls]
    by (cases "upcall e calls s") (simp_all add: ok_after_def)
  then show ?thesis
  proof (rule ok_after_mono)
    fix x assume a: "idleq wo k (offered s) x \<and> upcall e calls s = Inr x"
    then have "rdbuf x = rdbuf s" by (auto dest: upcall_rdbuf)
    then have "offered x = offered s" "read_data_len x = read_data_len s"
      "read_data_pos x = read_data_pos s"
      by (simp_all add: rdbuf_def offered_def)
    with a i show "idle wo k x" by (simp add: idle_def idleq_def ll_inv_def)
  qed
qed

lemmas upcall_wp = ok_after_mono [OF upcall_ok]

lemma deliver_retry_ok:
  "idle wo k s \<Longrightarrow> (err \<noteq> GE_NOERR \<longrightarrow> read_data_len s = 0)
     \<Longrightarrow> ok_after (idle wo k) (deliver_retry rs err s)"
proof (induction rs arbitrary: s)
  case Nil
  then show ?case by (simp add: ok_after_simps)
next
  case (Cons r rs)
  let ?q = "if err = GE_NOERR then drop (fst r) (offered s) else []"
  let ?u = "upcall (CbRead (cb_data s) err (offered s) (auxdata s) (fst r)) (snd r) s"
  from Cons.prems(1) have iq: "idleq wo k (offered s) s"
    by (simp add: idle_def idleq_def ll_inv_def)
  from Cons.prems(2) have e0: "err \<noteq> GE_NOERR \<longrightarrow> offered s = []" by (simp add: offered_def)
  with idle_live [OF Cons.prems(1)]
  have "mon_step wo (CbRead (cb_data s) err (offered s) (auxdata s) (fst r))
               (False, refcount s, False, offered s) = Some (False, refcount s, False, ?q)"
    by simp
  from upcall_invq [OF iq this] have u1: "ok_after (idleq wo k ?q) ?u" .
  show ?case
  proof (cases ?u)
    case (Inl e)
    with u1 show ?thesis by (simp add: ok_after_def)
  next
    case (Inr s1)
    with u1 have i1: "idleq wo k ?q s1" by (simp add: ok_after_def)
    from upcall_rdbuf [OF Inr] have rb: "rdbuf s1 = rdbuf s" .
    then have o1: "offered s1 = offered s" and l1: "read_data_len s1 = read_data_len s"
      and p1: "read_data_pos s1 = read_data_pos s"
      by (simp_all add: rdbuf_def offered_def)
    show ?thesis
    proof (cases "err \<noteq> GE_NOERR \<or> fst r \<ge> read_data_len s1")
      case True
      let ?s2 = "s1\<lparr>read_data_pos := 0, read_data_len := 0, auxdata := None\<rparr>"
      from True Inr have s': "deliver_retry (r # rs) err s = Inr ?s2" by simp
      from True l1 e0 have "?q = []" by (auto simp: offered_def)
      with i1 have "idleq wo k [] ?s2" by (simp add: idleq_def invq_def rcb_def)
      then have "idle wo k ?s2" by (rule inv_from_q) (simp_all add: offered_def)
      with s' show ?thesis by (simp add: ok_after_simps)
    next
      case False
      let ?s2 = "s1\<lparr>read_data_pos := read_data_pos s1 + fst r,
                    read_data_len := read_data_len s1 - fst r\<rparr>"
      from False have q: "?q = drop (fst r) (offered s)" by simp
      have o2: "offered ?s2 = drop (fst r) (offered s)"
        using offered_advance [of s1 "fst r"] o1 by simp
      from i1 q have "idleq wo k (drop (fst r) (offered s)) ?s2"
        by (simp add: idleq_def invq_def rcb_def)
      then have i2: "idle wo k ?s2" using o2 False by (intro inv_from_q) simp_all
      show ?thesis
      proof (cases "read_enabled s1")
        case True
        with False Inr have "deliver_retry (r # rs) err s = deliver_retry rs err ?s2"
          by (simp add: Let_def)
        with Cons.IH [OF i2] False show ?thesis by simp
      next
        case False
        with \<open>\<not> (err \<noteq> GE_NOERR \<or> fst r \<ge> read_data_len s1)\<close> Inr
        have "deliver_retry (r # rs) err s = Inr ?s2" by (simp add: Let_def)
        with i2 show ?thesis by (simp add: ok_after_simps)
      qed
    qed
  qed
qed

lemma fd_deliver_read_data_ok:
  "idle wo k s \<Longrightarrow> (err \<noteq> GE_NOERR \<longrightarrow> read_data_len s = 0)
     \<Longrightarrow> ok_after (idle wo k) (fd_deliver_read_data rs err s)"
  by (auto simp: fd_deliver_read_data_def ok_after_simps intro: deliver_retry_ok)

lemmas fd_deliver_read_data_wp = ok_after_mono [OF fd_deliver_read_data_ok]

text \<open>The invariant through the handlers and through a run.\<close>

lemma api_idle:
  "idle wo k s \<Longrightarrow> idle wo k (snd (fd_close done cdata s))"
  "idle wo k s \<Longrightarrow> idle wo k (fd_set_read_callback_enable b s)"
  "idle wo k s \<Longrightarrow> idle wo k (fd_set_write_callback_enable b s)"
  "idle wo k s \<Longrightarrow> idle wo k (fd_disable s)"
  "held wo k s \<Longrightarrow> held wo k (fd_start_close s)"
  "held wo k s \<Longrightarrow> held wo k (fd_finish_open_enable s)"
  by (auto simp: api_defs fd_finish_open_enable_def Let_def inv_all)

lemmas wp_simps = ok_after_simps api_defs fd_finish_open_enable_def Let_def inv_all

lemma fd_finish_open_call_done_ok:
  "held wo k s \<Longrightarrow> ok_after (held wo k) (fd_finish_open_call_done calls err s)"
  unfolding fd_finish_open_call_done_def
  by (auto simp: wp_simps split: option.splits intro!: upcall_wp [where wo = wo and k = k])

lemmas fd_finish_open_call_done_wp = ok_after_mono [OF fd_finish_open_call_done_ok]

lemma fd_finish_open_ok:
  "held wo k s \<Longrightarrow> ok_after (held wo k) (fd_finish_open calls err s)"
  unfolding fd_finish_open_def
  by (auto simp: wp_simps intro!: fd_finish_open_call_done_wp [where wo = wo and k = k])

lemmas fd_finish_open_wp = ok_after_mono [OF fd_finish_open_ok]

lemma fd_finish_close_ok:
  "held wo k s \<Longrightarrow> ok_after (held wo k) (fd_finish_close calls s)"
  unfolding fd_finish_close_def
  by (auto simp: wp_simps split: option.splits intro!: upcall_wp [where wo = wo and k = k])

lemmas fd_finish_close_wp = ok_after_mono [OF fd_finish_close_ok]

lemma deferred_retry_ok:
  "held wo k s \<Longrightarrow> ok_after (held wo k) (deferred_retry scripts s)"
proof (induction scripts arbitrary: s)
  case Nil
  then show ?case by (simp add: ok_after_simps)
next
  case (Cons sc rest)
  show ?case
  proof (cases "deferred_read s")
    case False
    with Cons.prems show ?thesis by (simp add: ok_after_simps)
  next
    case True
    from Cons.prems have "idle wo k (fd_unlock (s\<lparr>deferred_read := False\<rparr>))"
      by (simp add: inv_all)
    then have "ok_after (idle wo k)
        (fd_deliver_read_data sc GE_NOERR (fd_unlock (s\<lparr>deferred_read := False\<rparr>)))"
      by (rule fd_deliver_read_data_ok) simp
    then show ?thesis
    proof (cases "fd_deliver_read_data sc GE_NOERR (fd_unlock (s\<lparr>deferred_read := False\<rparr>))")
      case (Inl e)
      with True show "ok_after (idle wo k)
          (fd_deliver_read_data sc GE_NOERR (fd_unlock (s\<lparr>deferred_read := False\<rparr>)))
        \<Longrightarrow> ?thesis" by (simp add: ok_after_def)
    next
      case (Inr s1)
      assume "ok_after (idle wo k)
          (fd_deliver_read_data sc GE_NOERR (fd_unlock (s\<lparr>deferred_read := False\<rparr>)))"
      with Inr have "idle wo k s1" by (simp add: ok_after_def)
      then have "held wo k ((fd_lock s1)\<lparr>in_read := False\<rparr>)" by (simp add: inv_all)
      from Cons.IH [OF this] True Inr show ?thesis by simp
    qed
  qed
qed

lemmas deferred_retry_wp = ok_after_mono [OF deferred_retry_ok]

lemma fd_deferred_op_ok:
  "idle wo (Suc 0) s \<Longrightarrow> ok_after (ended wo (Suc 0)) (fd_deferred_op cc scripts s)"
  unfolding fd_deferred_op_def
  by (auto simp: wp_simps
        intro!: fd_finish_close_wp [where wo = wo and k = "Suc 0"]
          deferred_retry_wp [where wo = wo and k = "Suc 0"]
          fd_deref_and_unlock_wp [where wo = wo and k = 2])

lemma fd_handle_incoming_ok:
  "idle False (Suc 0) s \<Longrightarrow> ok_after (ended False (Suc 0)) (fd_handle_incoming rd script s)"
  unfolding fd_handle_incoming_def
  by (auto simp: wp_simps
        intro!: fd_deliver_read_data_wp [where wo = False and k = 2]
          fd_deref_and_unlock_wp [where wo = False and k = 2])

lemma idle_ended: "idle wo k s \<Longrightarrow> ended wo k s"
  by (simp add: idle_def ended_def)

lemma fd_read_ready_ok:
  "idle False (Suc 0) s \<Longrightarrow> ok_after (ended False (Suc 0)) (fd_read_ready h rd script s)"
proof -
  assume i: "idle False (Suc 0) s"
  then have "idle False (Suc 0) (log (OpReadReady (fd s)) s)" by (simp add: inv_all)
  with i show ?thesis
    by (auto simp: fd_read_ready_def Let_def ok_after_simps idle_ended
          intro: fd_handle_incoming_ok)
qed

lemma fd_setup_handlers_held:
  "held wo k s \<Longrightarrow> held wo k (snd (fd_setup_handlers ok s))"
  by (auto simp: fd_setup_handlers_def Let_def inv_all)

lemma fd_handle_write_ready_ok:
  assumes h: "held wo k s"
  shows "ok_after (held wo k) (fd_handle_write_ready oa calls s)"
proof (cases "state s = FD_IN_OPEN")
  case False
  with h show ?thesis
    unfolding fd_handle_write_ready_def
    by (auto simp: wp_simps intro!: upcall_wp [where wo = wo and k = k])
next
  case True
  note io = True
  let ?s2 = "log (OpCheckOpen (fd s)) (os_set_write_handler False s)"
  from h have h2: "held wo k ?s2" by (simp add: inv_all)
  show ?thesis
  proof (cases "chk_err oa \<noteq> GE_NOERR \<and> has_retry_open (ops s)")
    case False
    with io have "fd_handle_write_ready oa calls s = fd_finish_open calls (chk_err oa) ?s2"
      by (auto simp: fd_handle_write_ready_def Let_def prim_sel)
    with fd_finish_open_ok [OF h2] show ?thesis by simp
  next
    case True
    let ?s4 = "log OpRetryOpen ((os_close (os_clear_fd_handlers_norpt ?s2))\<lparr>fd := -1\<rparr>)"
    let ?s5 = "case retry_fd oa of Some f \<Rightarrow> ?s4\<lparr>fd := f\<rparr> | None \<Rightarrow> ?s4"
    from h have h5: "held wo k ?s5" by (simp add: inv_all split: option.splits)
    from fd_setup_handlers_held [OF h5]
    have h6: "held wo k (snd (fd_setup_handlers (setup_ok oa) ?s5))" .
    then have h7: "held wo k (os_set_except_handler True (os_set_write_handler True
                     (snd (fd_setup_handlers (setup_ok oa) ?s5))))"
      by (simp add: inv_all)
    from io True have eq: "fd_handle_write_ready oa calls s =
        (if retry_err oa \<noteq> GE_INPROGRESS then fd_finish_open calls (retry_err oa) ?s5
         else if fst (fd_setup_handlers (setup_ok oa) ?s5) \<noteq> GE_NOERR
              then fd_finish_open calls (fst (fd_setup_handlers (setup_ok oa) ?s5))
                     (snd (fd_setup_handlers (setup_ok oa) ?s5))
              else Inr (os_set_except_handler True (os_set_write_handler True
                     (snd (fd_setup_handlers (setup_ok oa) ?s5)))))"
      by (simp add: fd_handle_write_ready_def Let_def prim_sel split: prod.splits)
    show ?thesis
      unfolding eq using h5 h6 h7
      by (auto simp: ok_after_simps intro: fd_finish_open_ok)
  qed
qed

lemmas fd_handle_write_ready_wp = ok_after_mono [OF fd_handle_write_ready_ok]

lemma fd_write_ready_ok:
  "idle wo (Suc 0) s \<Longrightarrow> ok_after (ended wo (Suc 0)) (fd_write_ready oa calls s)"
  unfolding fd_write_ready_def
  by (auto simp: wp_simps
        intro!: fd_handle_write_ready_wp [where wo = wo and k = 2]
          fd_deref_and_unlock_wp [where wo = wo and k = 2])

lemma fd_except_ready_ok:
  "idle wo (Suc 0) s \<Longrightarrow> ok_after (ended wo (Suc 0)) (fd_except_ready oa calls s)"
  unfolding fd_except_ready_def
  by (auto simp: wp_simps
        intro!: fd_handle_write_ready_wp [where wo = wo and k = 2]
          fd_deref_and_unlock_wp [where wo = wo and k = 2])

lemma fd_finish_cleared_ok:
  "idle wo (Suc 0) s \<Longrightarrow> ok_after (ended wo (Suc 0)) (fd_finish_cleared oc cc s)"
  unfolding fd_finish_cleared_def
  by (auto simp: wp_simps split: option.splits
        intro!: upcall_wp [where wo = wo and k = 2] fd_finish_close_wp [where wo = wo and k = 2]
          fd_deref_and_unlock_wp [where wo = wo and k = 2])

lemma fd_close_timeout_ok:
  "idle wo (Suc 0) s \<Longrightarrow> ok_after (ended wo (Suc 0)) (fd_close_timeout chk tmo oc cc s)"
proof -
  assume i: "idle wo (Suc 0) s"
  then have "idle wo (Suc 0) (log (OpCheckClose GENSIO_LL_CLOSE_STATE_DONE) s)"
    "ended wo (Suc 0) (os_start_timer tmo (log (OpCheckClose GENSIO_LL_CLOSE_STATE_DONE) s))"
    "ended wo (Suc 0) (os_start_timer tmo s)"
    by (simp_all add: inv_all)
  with i show ?thesis
    by (auto simp: fd_close_timeout_def Let_def ok_after_simps intro: fd_finish_cleared_ok)
qed

lemma fd_cleared_ok:
  "idle wo (Suc 0) s \<Longrightarrow> ok_after (ended wo (Suc 0)) (fd_cleared chk tmo oc cc s)"
  by (simp add: fd_cleared_def fd_close_timeout_ok fd_finish_cleared_ok)

lemma fd_open_idle:
  "idle wo k s \<Longrightarrow> idle wo k (snd (fd_open e f ok dn od s))"
proof -
  assume i: "idle wo k s"
  let ?s1 = "log OpSubOpen (fd_lock s)"
  let ?s2 = "case f of Some x \<Rightarrow> ?s1\<lparr>fd := x\<rparr> | None \<Rightarrow> ?s1"
  let ?s3 = "snd (fd_setup_handlers ok ?s2)"
  from i have h2: "held wo k ?s2" by (simp add: inv_all split: option.splits)
  from fd_setup_handlers_held [OF this] have h3: "held wo k ?s3" .
  from h2 have a: "idle wo k (fd_unlock ?s2)" by (simp add: inv_all)
  from h3 have b: "idle wo k (fd_unlock ((os_close ?s3)\<lparr>fd := -1\<rparr>))"
    "idle wo k (fd_unlock (os_set_except_handler True (os_set_write_handler True
        (?s3\<lparr>state := FD_IN_OPEN, open_done := dn, open_data := od\<rparr>))))"
    "idle wo k (fd_unlock (?s3\<lparr>state := FD_OPEN\<rparr>))"
    by (simp_all add: inv_all)
  show ?thesis
    using i a b by (simp add: fd_open_def Let_def split: prod.splits) (auto simp: Let_def)
qed

lemma deliver_ok:
  "idle wo (Suc 0) s \<Longrightarrow> ok_after (ended wo (Suc 0)) (deliver i s)"
proof (cases i)
  case (InReadReady h rd script)
  assume i: "idle wo (Suc 0) s"
  show ?thesis
  proof (cases "os_read_on s")
    case False
    with i InReadReady show ?thesis by (simp add: ok_after_simps idle_ended)
  next
    case True
    with i have "wo = False" by (auto simp: idle_def ll_inv_def invq_def)
    with i True InReadReady show ?thesis by (simp add: fd_read_ready_ok)
  qed
next
  case InFree
  assume i: "idle wo (Suc 0) s"
  then have "held wo (Suc 0) (fd_lock s)" by (simp add: inv_all)
  with InFree show ?thesis
    by (auto simp: fd_free_def intro!: fd_deref_and_unlock_wp [where wo = wo and k = "Suc 0"])
next
  case (InCleared chk tmo oc cc)
  assume i: "idle wo (Suc 0) s"
  then have "idle wo (Suc 0) (s\<lparr>os_cleared_due := False\<rparr>)" by (simp add: inv_all)
  with i InCleared show ?thesis
    by (simp add: ok_after_simps fd_cleared_ok idle_ended)
next
  case (InTimer chk tmo oc cc)
  assume i: "idle wo (Suc 0) s"
  then have "idle wo (Suc 0) (s\<lparr>os_timer_due := False\<rparr>)" by (simp add: inv_all)
  with i InTimer show ?thesis
    by (simp add: ok_after_simps fd_close_timeout_ok idle_ended)
next
  case (InRunner cc scripts)
  assume i: "idle wo (Suc 0) s"
  then have "idle wo (Suc 0) (s\<lparr>os_runner_due := False\<rparr>)" by (simp add: inv_all)
  with i InRunner show ?thesis
    by (simp add: ok_after_simps fd_deferred_op_ok idle_ended)
next
  case (InSetRead b)
  assume i: "idle wo (Suc 0) s"
  from api_idle(2) [OF i] InSetRead show ?thesis by (simp add: ok_after_simps idle_ended)
next
  case (InSetWrite b)
  assume i: "idle wo (Suc 0) s"
  from api_idle(3) [OF i] InSetWrite show ?thesis by (simp add: ok_after_simps idle_ended)
next
  case (InClose dn cdata)
  assume i: "idle wo (Suc 0) s"
  from api_idle(1) [OF i] InClose show ?thesis by (simp add: ok_after_simps idle_ended)
next
  case InDisable
  assume i: "idle wo (Suc 0) s"
  from api_idle(4) [OF i] InDisable show ?thesis by (simp add: ok_after_simps idle_ended)
next
  case (InOpen e f ok dn od)
  assume i: "idle wo (Suc 0) s"
  from fd_open_idle [OF i] InOpen show ?thesis by (simp add: ok_after_simps idle_ended)
next
  case (InWriteReady oa calls)
  assume i: "idle wo (Suc 0) s"
  with InWriteReady show ?thesis
    by (simp add: ok_after_simps fd_write_ready_ok idle_ended)
next
  case (InExceptReady oa calls)
  assume i: "idle wo (Suc 0) s"
  with InExceptReady show ?thesis
    by (simp add: ok_after_simps fd_except_ready_ok idle_ended)
qed

lemma run_ok:
  "ended wo (Suc 0) s \<Longrightarrow> ok_after (ended wo (Suc 0)) (run ins s)"
proof (induction ins arbitrary: s)
  case Nil
  then show ?case by (simp add: ok_after_simps)
next
  case (Cons i ins)
  show ?case
  proof (cases "freed s")
    case True
    then show ?thesis by (simp add: step_def and_then_def ok_after_def)
  next
    case False
    with Cons.prems have "idle wo (Suc 0) s" by (simp add: idle_def ended_def)
    from deliver_ok [OF this] have "ok_after (\<lambda>x. ok_after (ended wo (Suc 0)) (run ins x)) (deliver i s)"
      by (rule ok_after_mono) (rule Cons.IH)
    with False show ?thesis by (simp add: step_def ok_after_simps)
  qed
qed

text \<open>What the log of a run says about the read stream, the count and the read handler.\<close>

lemma after_simps:
  "after P (Inr x) = P x"
  "after P (Inl e) = True"
  "after P (and_then m f) = after (\<lambda>x. after P (f x)) m"
  by (simp_all add: after_def and_then_def split: sum.splits)



lemma after_mono: "after Q m \<Longrightarrow> (\<And>x. Q x \<Longrightarrow> P x) \<Longrightarrow> after P m"
  by (cases m) (simp_all add: after_def)

lemma starts_simps:
  "starts p p"
  "starts p (p @ u)"
  "starts p t \<Longrightarrow> starts p (t @ u)"
  "starts [] t"
  "starts (p @ a) (p @ b) = starts a b"
  "starts (x # a) (y # b) = (x = y \<and> starts a b)"
  by (auto simp: starts_def)





lemmas st_simps = after_simps api_defs fd_finish_open_enable_def Let_def prim_sel starts_simps









lemma fd_setup_handlers_trace:
  "starts p (trace s) \<Longrightarrow> starts p (trace (snd (fd_setup_handlers ok s)))"
  by (simp add: fd_setup_handlers_def st_simps)



lemma fd_deref_and_unlock_bracket:
  "starts (trace s @ [EvLock, EvRef]) (trace x) \<Longrightarrow> after (bracketed s) (fd_deref_and_unlock x)"
  by (auto simp: fd_deref_and_unlock_def Let_def after_simps prim_sel bracketed_def starts_def)

lemmas fd_deref_and_unlock_bracket_wp = after_mono [OF fd_deref_and_unlock_bracket]







lemma mon_step_fifo:
  "mon_step wo e (l, r, f, q) = Some (l', r', f', q') \<Longrightarrow> fifo_step e q = Some q'"
  by (cases e) (auto split: if_splits)

lemma mon_fifo:
  "mon wo t (l, r, f, q) = Some (l', r', f', q') \<Longrightarrow> fifo t q = Some q'"
proof (induction t arbitrary: l r f q)
  case Nil
  then show ?case by simp
next
  case (Cons e t)
  from Cons.prems obtain a where a: "mon_step wo e (l, r, f, q) = Some a"
    and m: "mon wo t a = Some (l', r', f', q')"
    by (auto split: option.splits)
  obtain l1 r1 f1 q1 where a1: "a = (l1, r1, f1, q1)" by (cases a) auto
  from mon_step_fifo [OF a [unfolded a1]] Cons.IH [OF m [unfolded a1]]
  show ?case by simp
qed



lemma mon_step_write_only:
  "mon_step True e a = Some a' \<Longrightarrow> \<not> arms_or_reads e"
  by (cases e; cases a) (auto split: if_splits)

lemma mon_write_only:
  "mon True t a = Some a' \<Longrightarrow> \<not> list_ex arms_or_reads t"
proof (induction t arbitrary: a)
  case Nil
  then show ?case by simp
next
  case (Cons e t)
  from Cons.prems obtain b where b: "mon_step True e a = Some b"
    and m: "mon True t b = Some a'"
    by (auto split: option.splits)
  from mon_step_write_only [OF b] Cons.IH [OF m] show ?case by simp
qed

lemma alloc_ended:
  "fd_gensio_ll_alloc fd0 ops0 sz wo ok = Some s0 \<Longrightarrow> ended wo (Suc 0) s0"
  by (auto simp: fd_gensio_ll_alloc_def fd_setup_handlers_def Let_def inv_all
        split: if_splits)

lemma run_from_alloc:
  "fd_gensio_ll_alloc fd0 ops0 sz wo ok = Some s0 \<Longrightarrow> ok_after (ended wo (Suc 0)) (run ins s0)"
  by (blast intro: run_ok alloc_ended)

lemma ended_mon:
  "ended wo k s \<Longrightarrow>
     mon wo (trace s) (False, 1, False, []) = Some (False, refcount s, freed s, offered s)"
  by (auto simp: ended_def ll_inv_def invq_def)

text \<open>The example runs, evaluated.\<close>

lemmas eval_defs = ll_open_def plain_ops_def run_defs api_defs prim_defs Let_def step_def
  fd_handle_incoming_def fd_read_ready_def fd_deliver_read_data_def upcall_def and_then_def
  fd_deref_and_unlock_def offered_def fd_cleared_def fd_write_ready_def
  fd_handle_write_ready_def fd_free_def

lemma alloc_eval:
  "fd_gensio_ll_alloc 5 plain_ops 0 False True = Some ll_zero"
  "fd_gensio_ll_alloc 5 plain_ops 0 True True = Some ll_write_only"
  by (simp_all add: fd_gensio_ll_alloc_def fd_setup_handlers_def ll_zero_def ll_write_only_def
        ll_open_def prim_defs Let_def)

lemma short_read_run_eval:
  "run short_read_run ll_open = Inr ll_after_short_reads"
  by (simp add: short_read_run_def ll_after_short_reads_def rd123_def eval_defs)


lemma write_only_run_eval:
  "run write_only_run ll_write_only = Inr ll_after_write_only_run"
  by (simp add: write_only_run_def ll_after_write_only_run_def ll_write_only_def ll_zero_def
        rd_nothing_def eval_defs)

lemma zero_size_run_eval:
  "run zero_size_run ll_zero = Inr ll_after_zero_size_run"
  by (simp add: zero_size_run_def ll_after_zero_size_run_def ll_zero_def rd_nothing_def eval_defs)

lemma short_upcall_eval:
  "upcall (CbRead (cb_data ll_buffered) GE_NOERR (offered ll_buffered) (auxdata ll_buffered) 1)
      [CallSetRead False] ll_buffered =
     Inr (ll_buffered\<lparr>read_enabled := False,
            trace := [OsSetFdHandlers 5, CbRead 0 GE_NOERR [1, 2, 3] None 1, EvLock, EvUnlock]\<rparr>)"
  by (simp add: ll_buffered_def eval_defs)

subsection \<open>A short read keeps its suffix\<close>

text \<open>
  C1. In every run of a lower layer from its allocation, the log keeps the read
  stream in order: a read up-call is handed exactly the bytes read from the handle
  that no earlier up-call has taken, the handle is read again only when none are left,
  and the bytes the buffer offers at the end are the ones not yet taken; so after a
  short read the suffix is what the next delivery offers first, whether the delivery
  is the retry, a later read-ready event or the deferred runner after
  \<^verbatim>\<open>set_read_callback_enable(true)\<close>. And in one delivery: when the consumer takes
  \<open>n\<close> bytes, fewer than offered, \<^verbatim>\<open>read_data_pos\<close> is advanced by \<open>n\<close> and \<^verbatim>\<open>read_data_len\<close>
  reduced by \<open>n\<close>, and the buffer then offers the bytes after the first \<open>n\<close>.
\<close>

theorem short_read_suffix_kept:
  "(fd_gensio_ll_alloc fdh drv sz wo ok = Some sa \<and> run ins sa = Inr s'
      \<longrightarrow> fifo (trace s') [] = Some (offered s'))
   \<and> (read_data_len s \<noteq> 0 \<and> n < read_data_len s
        \<and> upcall (CbRead (cb_data s) GE_NOERR (offered s) (auxdata s) n) calls s = Inr sb \<longrightarrow>
       offered (sb\<lparr>read_data_pos := read_data_pos s + n, read_data_len := read_data_len s - n\<rparr>)
         = drop n (offered s)
       \<and> fd_deliver_read_data ((n, calls) # rs) GE_NOERR s =
           (if read_enabled sb
            then deliver_retry rs GE_NOERR
                   (sb\<lparr>read_data_pos := read_data_pos s + n,
                        read_data_len := read_data_len s - n\<rparr>)
            else Inr (sb\<lparr>read_data_pos := read_data_pos s + n,
                          read_data_len := read_data_len s - n\<rparr>)))"
proof (intro conjI impI; (elim conjE)?)
  assume "fd_gensio_ll_alloc fdh drv sz wo ok = Some sa" and r: "run ins sa = Inr s'"
  from ok_afterD [OF run_from_alloc [OF this(1)] r] have "ended wo (Suc 0) s'" .
  from mon_fifo [OF ended_mon [OF this]] show "fifo (trace s') [] = Some (offered s')" .
next
  assume len: "read_data_len s \<noteq> 0" and n: "n < read_data_len s"
    and u: "upcall (CbRead (cb_data s) GE_NOERR (offered s) (auxdata s) n) calls s = Inr sb"
  from upcall_rdbuf [OF u] have rb: "rdbuf sb = rdbuf s" .
  then have eq: "sb\<lparr>read_data_pos := read_data_pos s + n, read_data_len := read_data_len s - n\<rparr>
      = sb\<lparr>read_data_pos := read_data_pos sb + n, read_data_len := read_data_len sb - n\<rparr>"
    by (simp add: rdbuf_def)
  show "offered (sb\<lparr>read_data_pos := read_data_pos s + n,
                    read_data_len := read_data_len s - n\<rparr>) = drop n (offered s)"
    unfolding eq using offered_advance [of sb n] rdbuf_offered [OF rb] by simp
  show "fd_deliver_read_data ((n, calls) # rs) GE_NOERR s =
           (if read_enabled sb
            then deliver_retry rs GE_NOERR
                   (sb\<lparr>read_data_pos := read_data_pos s + n,
                        read_data_len := read_data_len s - n\<rparr>)
            else Inr (sb\<lparr>read_data_pos := read_data_pos s + n,
                          read_data_len := read_data_len s - n\<rparr>))"
    using len u n rb by (simp add: fd_deliver_read_data_def rdbuf_def Let_def)
qed

theorem suffix_kept_witness:
  "fd_gensio_ll_alloc 5 plain_ops 4 False True = Some ll_open
   \<and> run short_read_run ll_open = Inr ll_after_short_reads
   \<and> fifo (trace ll_after_short_reads) [] = Some [3]
   \<and> read_data_len ll_buffered = 3
   \<and> fd_deliver_read_data [(1, [CallSetRead False])] GE_NOERR ll_buffered =
       Inr (ll_buffered\<lparr>read_enabled := False, read_data_pos := 1, read_data_len := 2,
              trace := [OsSetFdHandlers 5, CbRead 0 GE_NOERR [1, 2, 3] None 1,
                        EvLock, EvUnlock]\<rparr>)
   \<and> offered (ll_buffered\<lparr>read_enabled := False, read_data_pos := 1, read_data_len := 2,
              trace := [OsSetFdHandlers 5, CbRead 0 GE_NOERR [1, 2, 3] None 1,
                        EvLock, EvUnlock]\<rparr>) = [2, 3]"
  using short_read_suffix_kept [where fdh = 5 and drv = plain_ops and sz = 4 and wo = False
      and ok = True and sa = ll_open and ins = short_read_run and s' = ll_after_short_reads
      and s = ll_buffered and n = 1 and calls = "[CallSetRead False]"
      and sb = "ll_buffered\<lparr>read_enabled := False,
            trace := [OsSetFdHandlers 5, CbRead 0 GE_NOERR [1, 2, 3] None 1, EvLock, EvUnlock]\<rparr>"
      and rs = "[]"]
    ll_open_alloc short_read_run_eval short_upcall_eval
  by (simp add: ll_after_short_reads_def ll_buffered_def ll_open_def offered_def)

subsection \<open>A write-only lower layer\<close>

text \<open>
  C6, as the claim states it, fails: a read buffer of size 0 does not make the lower
  layer write-only. Allocated with size 0 and \<^verbatim>\<open>write_only\<close> false, the lower layer
  enables the read handler on \<^verbatim>\<open>set_read_callback_enable(true)\<close> and reads from the
  handle (into no room) on the read-ready event.
\<close>

theorem zero_size_reads_counterexample:
  "fd_gensio_ll_alloc 5 plain_ops 0 False True = Some ll_zero
   \<and> read_data_size ll_zero = 0
   \<and> run zero_size_run ll_zero = Inr ll_after_zero_size_run
   \<and> list_ex arms_or_reads (trace ll_after_zero_size_run)
   \<and> os_read_on ll_after_zero_size_run"
  using alloc_eval zero_size_run_eval
  by (simp add: ll_after_zero_size_run_def ll_zero_def ll_open_def)

text \<open>
  C6, amended. In every run of a lower layer allocated with \<^verbatim>\<open>write_only\<close> set,
  whatever the size of its read buffer, the read handler is never enabled and the
  handle is never read; read stays disabled.
\<close>

theorem write_only_never_reads:
  "fd_gensio_ll_alloc fdh drv sz True ok = Some sa \<and> run ins sa = Inr s'
     \<longrightarrow> \<not> list_ex arms_or_reads (trace s') \<and> \<not> os_read_on s' \<and> \<not> read_enabled s'"
proof (intro impI; elim conjE)
  assume "fd_gensio_ll_alloc fdh drv sz True ok = Some sa" and r: "run ins sa = Inr s'"
  from ok_afterD [OF run_from_alloc [OF this(1)] r] have e: "ended True (Suc 0) s'" .
  then have "\<not> os_read_on s'" "\<not> read_enabled s'"
    by (simp_all add: ended_def ll_inv_def invq_def)
  with mon_write_only [OF ended_mon [OF e]]
  show "\<not> list_ex arms_or_reads (trace s') \<and> \<not> os_read_on s' \<and> \<not> read_enabled s'" by simp
qed

theorem write_only_witness:
  "fd_gensio_ll_alloc 5 plain_ops 0 True True = Some ll_write_only
   \<and> run write_only_run ll_write_only = Inr ll_after_write_only_run
   \<and> \<not> list_ex arms_or_reads (trace ll_after_write_only_run)
   \<and> \<not> os_read_on ll_after_write_only_run"
  using write_only_never_reads [where fdh = 5 and drv = plain_ops and sz = 0 and ok = True
      and sa = ll_write_only and ins = write_only_run and s' = ll_after_write_only_run]
    alloc_eval write_only_run_eval
  by simp

subsection \<open>The reference count\<close>




end
